theory Spec2Isabelle
  imports Complex_Main "HOL-Library.Multiset"
begin

section \<open>Data model of \<open>analysis.py\<close>\<close>

text \<open>
  The processor \<open>analysis.process\<close> works on whole columns of a batch at once. Each
  column expression is embedded as a function of one event and mapped over the batch.
  Kinematic quantities are real numbers. Where the source divides by a quantity that can be
  zero, the model says what the floating-point division gives there.
\<close>

datatype error = IndexError | NameError

text \<open>
  Four-vectors come from the \<open>coffea\<close> vector library, which is not part of the
  repository. The operations the processor calls on them are parameters of the model:
  \<open>+\<close>, \<open>ak.sum(..., axis=1)\<close>, \<open>.pt\<close>, \<open>.eta\<close>, \<open>.mass\<close> and \<open>.delta_r\<close>.
\<close>

record 'v vector_ops =
  vec_add :: "'v \<Rightarrow> 'v \<Rightarrow> 'v"
  vec_sum :: "'v list \<Rightarrow> 'v"
  pt :: "'v \<Rightarrow> real"
  eta :: "'v \<Rightarrow> real"
  mass :: "'v \<Rightarrow> real"
  delta_r :: "'v \<Rightarrow> 'v \<Rightarrow> real"

text \<open>
  The generator behind \<open>np.random\<close> is a parameter as well: \<open>seed\<close> gives the state
  after \<open>np.random.seed\<close>, and \<open>uniform low high\<close> draws one sample and advances the state.
\<close>

record 's random_ops =
  seed :: "nat \<Rightarrow> 's"
  uniform :: "real \<Rightarrow> real \<Rightarrow> 's \<Rightarrow> real \<times> 's"

record 'v event =
  weight :: real
  Jet :: "'v list"

record metadata =
  filename :: string
  dataset :: string
  entrystart :: int
  entrystop :: int

text \<open>
  A dijet is the sum of two jets together with the fields the processor attaches to it.
  The fields \<open>diJetMass\<close>, \<open>drc\<close> and \<open>xH\<close> are attached after the sort, so they
  live in an extension of the record. A non-finite \<open>xH\<close> is \<open>None\<close>.
\<close>

record 'v diJet =
  p4 :: 'v
  st :: real
  dr :: real
  lead :: 'v
  subl :: 'v

record 'v diJet_cut = "'v diJet" +
  diJetMass :: bool
  drc :: bool
  xH :: "real option"

record 'v quadJet =
  lead :: "'v diJet_cut"
  subl :: "'v diJet_cut"
  diJetMass :: bool
  random :: real
  dr :: real
  xHH :: "real option"
  SR :: bool
  SB :: bool
  rank :: real

record 'v quadJet_sel = "'v quadJet" +
  selected :: bool

record 'v event_reco = "'v event" +
  diJet :: "'v diJet_cut list list"
  quadJet :: "'v quadJet_sel list"
  quadJet_selected :: "'v quadJet_sel"
  diJetMass :: bool
  SB :: bool
  SR :: bool

text \<open>
  A histogram is the external sink of the processor; it is modelled by the list of the
  entries filled into it, in the order of the calls: \<open>(dataset, cut, region, weight)\<close> for
  the cutflow and \<open>(dataset, cut, region, mass, weight)\<close> for \<open>m4j\<close>.
\<close>

type_synonym cutflow_fill = "string \<times> string \<times> string \<times> real"
type_synonym m4j_fill = "string \<times> string \<times> string \<times> real \<times> real"

record process_output =
  hists_m4j :: "m4j_fill list"
  cutflow :: "cutflow_fill list"
  sumw :: real
  nEvent :: nat

record analysis =
  debug :: bool

section \<open>Jet selection\<close>

definition v4j :: "'v vector_ops \<Rightarrow> ('v, 'a) event_scheme \<Rightarrow> 'v" where
  "v4j ops ev = vec_sum ops (Jet ev)"

definition Jet_selected :: "'v vector_ops \<Rightarrow> 'v \<Rightarrow> bool" where
  "Jet_selected ops j \<longleftrightarrow> 40 \<le> pt ops j \<and> \<bar>eta ops j\<bar> \<le> 2.4"

definition nJet_selected :: "'v vector_ops \<Rightarrow> 'v event \<Rightarrow> nat" where
  "nJet_selected ops ev = length (filter (Jet_selected ops) (Jet ev))"

definition preselection :: "'v vector_ops \<Rightarrow> 'v event list \<Rightarrow> 'v event list" where
  "preselection ops evs = filter (\<lambda>ev. 4 \<le> nJet_selected ops ev) evs"

section \<open>Building the dijets\<close>

text \<open>
  \<open>event.Jet[:, idx]\<close> with a two-dimensional index array: entry \<open>(p, k)\<close> of the result
  is the jet at position \<open>idx[p][k]\<close>; an index past the end of an event's jet list raises.
\<close>

definition getitem :: "'a list \<Rightarrow> nat list list \<Rightarrow> error + 'a list list" where
  "getitem xs idx =
     (if list_all (list_all (\<lambda>i. i < length xs)) idx
      then Inr (map (map (nth xs)) idx)
      else Inl IndexError)"

definition pairing :: "nat list list list" where
  "pairing = [[[0, 2], [0, 1], [0, 1]],
              [[1, 3], [2, 3], [3, 2]]]"

definition make_diJet :: "'v vector_ops \<Rightarrow> 'v \<Rightarrow> 'v \<Rightarrow> 'v diJet" where
  "make_diJet ops a b =
     \<lparr>p4 = vec_add ops a b, st = pt ops a + pt ops b, diJet.dr = delta_r ops a b,
      diJet.lead = a, diJet.subl = b\<rparr>"

definition build_diJet :: "'v vector_ops \<Rightarrow> 'v list \<Rightarrow> error + 'v diJet list list" where
  "build_diJet ops js =
     (case getitem js (pairing ! 0) of
        Inl e \<Rightarrow> Inl e
      | Inr A \<Rightarrow>
          (case getitem js (pairing ! 1) of
             Inl e \<Rightarrow> Inl e
           | Inr B \<Rightarrow> Inr (map2 (map2 (make_diJet ops)) A B)))"

text \<open>
  \<open>ak.argsort(..., ascending=False)\<close> is stable: equal keys keep their order.
\<close>

definition argsort_descending :: "real list \<Rightarrow> nat list" where
  "argsort_descending xs = map snd (sort_key (\<lambda>(x, i). - x) (zip xs [0..<length xs]))"

definition sort_st :: "'v diJet list \<Rightarrow> 'v diJet list" where
  "sort_st ds = map (nth ds) (argsort_descending (map st ds))"

definition sorted_diJet :: "'v vector_ops \<Rightarrow> 'v list \<Rightarrow> error + 'v diJet list list" where
  "sorted_diJet ops js =
     (case build_diJet ops js of Inl e \<Rightarrow> Inl e | Inr ds \<Rightarrow> Inr (map sort_st ds))"

section \<open>Cuts on the dijets\<close>

text \<open>
  The threshold arrays have one entry per position along the last axis: position 0 is the
  dijet with the larger \<open>st\<close> of its pairing, position 1 the other one.
\<close>

definition minDiJetMass :: "real list" where
  "minDiJetMass = [52, 50]"

definition maxDiJetMass :: "real list" where
  "maxDiJetMass = [180, 173]"

definition min_m4j_scale :: "real list" where
  "min_m4j_scale = [360, 235]"

definition min_dr_offset :: "real list" where
  "min_dr_offset = [- 0.5, 0.0]"

definition max_m4j_scale :: "real list" where
  "max_m4j_scale = [650, 650]"

definition max_dr_offset :: "real list" where
  "max_dr_offset = [0.5, 0.7]"

definition max_dr :: "real list" where
  "max_dr = [1.5, 1.5]"

definition mH :: real where
  "mH = 125.0"

definition st_bias :: "real list" where
  "st_bias = [1.02, 0.98]"

definition cH :: "real list" where
  "cH = map (\<lambda>b. mH * b) st_bias"

definition diJetMass_cut :: "nat \<Rightarrow> real \<Rightarrow> bool" where
  "diJetMass_cut k m \<longleftrightarrow> minDiJetMass ! k < m \<and> m < maxDiJetMass ! k"

text \<open>
  For \<open>m4j = 0\<close> the floating-point quotient \<open>min_m4j_scale / m4j\<close> is \<open>+inf\<close>, no \<open>dr\<close>
  is above it, and the cut fails.
\<close>

definition drc_cut :: "nat \<Rightarrow> real \<Rightarrow> real \<Rightarrow> bool" where
  "drc_cut k m4j r \<longleftrightarrow>
     m4j \<noteq> 0 \<and>
     min_m4j_scale ! k / m4j + min_dr_offset ! k < r \<and>
     r < max (max_m4j_scale ! k / m4j + max_dr_offset ! k) (max_dr ! k)"

text \<open>
  For a dijet of mass 0 the quotient \<open>(mass - cH) / (0.1 * mass)\<close> is infinite.
\<close>

definition xH_value :: "nat \<Rightarrow> real \<Rightarrow> real option" where
  "xH_value k m = (if m = 0 then None else Some ((m - cH ! k) / (0.1 * m)))"

definition classify :: "'v vector_ops \<Rightarrow> real \<Rightarrow> nat \<Rightarrow> 'v diJet \<Rightarrow> 'v diJet_cut" where
  "classify ops m4j k d =
     \<lparr>p4 = p4 d, st = st d, diJet.dr = diJet.dr d,
      diJet.lead = diJet.lead d, diJet.subl = diJet.subl d,
      diJet_cut.diJetMass = diJetMass_cut k (mass ops (p4 d)),
      drc = drc_cut k m4j (diJet.dr d),
      xH = xH_value k (mass ops (p4 d))\<rparr>"

definition classify_slot ::
  "'v vector_ops \<Rightarrow> real \<Rightarrow> 'v diJet list \<Rightarrow> 'v diJet_cut list" where
  "classify_slot ops m4j slot = map (\<lambda>(k, d). classify ops m4j k d) (enumerate 0 slot)"

definition event_diJet ::
  "'v vector_ops \<Rightarrow> 'v event \<Rightarrow> error + 'v diJet_cut list list" where
  "event_diJet ops ev =
     (case sorted_diJet ops (Jet ev) of
        Inl e \<Rightarrow> Inl e
      | Inr ds \<Rightarrow> Inr (map (classify_slot ops (mass ops (v4j ops ev))) ds))"

section \<open>Building and ranking the quadjets\<close>

definition max_xHH :: real where
  "max_xHH = 1.9"

definition xHH_value :: "real option \<Rightarrow> real option \<Rightarrow> real option" where
  "xHH_value a b =
     (case a of
        None \<Rightarrow> None
      | Some x \<Rightarrow> (case b of None \<Rightarrow> None | Some y \<Rightarrow> Some (sqrt (x\<^sup>2 + y\<^sup>2))))"

definition SR_cut :: "real option \<Rightarrow> bool" where
  "SR_cut x = (case x of None \<Rightarrow> False | Some v \<Rightarrow> v < max_xHH)"

definition make_quadJet :: "'v vector_ops \<Rightarrow> 'v diJet_cut list \<Rightarrow> real \<Rightarrow> 'v quadJet" where
  "make_quadJet ops slot r =
     (let l = slot ! 0;
          s = slot ! 1;
          m = list_all diJet_cut.diJetMass slot;
          x = xHH_value (xH l) (xH s);
          sr = SR_cut x
      in \<lparr>quadJet.lead = l, quadJet.subl = s, quadJet.diJetMass = m, random = r,
          quadJet.dr = delta_r ops (p4 l) (p4 s), xHH = x,
          quadJet.SR = sr, quadJet.SB = (m \<and> \<not> sr),
          rank = 10 * of_bool (diJet_cut.diJetMass l) + 10 * of_bool (diJet_cut.diJetMass s)
                 + of_bool (drc l) + of_bool (drc s) + r\<rparr>)"

definition mark_selected :: "'v quadJet list \<Rightarrow> 'v quadJet_sel list" where
  "mark_selected qs =
     map (\<lambda>q. quadJet.extend q
                 (quadJet_sel.fields (rank q = Max (set (map rank qs))))) qs"

definition event_quadJet ::
  "'v vector_ops \<Rightarrow> 'v diJet_cut list list \<Rightarrow> real list \<Rightarrow> 'v quadJet_sel list" where
  "event_quadJet ops ds rs = mark_selected (map2 (make_quadJet ops) ds rs)"

text \<open>\<open>quadJet[quadJet.selected][:,0]\<close>: the first of the candidates flagged.\<close>

definition first_selected :: "'v quadJet_sel list \<Rightarrow> error + 'v quadJet_sel" where
  "first_selected qs =
     (case filter selected qs of [] \<Rightarrow> Inl IndexError | q # _ \<Rightarrow> Inr q)"

definition reconstruct ::
  "'v vector_ops \<Rightarrow> 'v event \<Rightarrow> 'v diJet_cut list list \<Rightarrow> real list
     \<Rightarrow> error + 'v event_reco" where
  "reconstruct ops ev ds rs =
     (let qs = event_quadJet ops ds rs
      in case first_selected qs of
           Inl e \<Rightarrow> Inl e
         | Inr w \<Rightarrow>
             Inr \<lparr>weight = weight ev, Jet = Jet ev, diJet = ds, quadJet = qs,
                  quadJet_selected = w,
                  event_reco.diJetMass = quadJet.diJetMass w,
                  event_reco.SB = quadJet.SB w,
                  event_reco.SR = quadJet.SR w\<rparr>)"

section \<open>The processor\<close>

fun sequence :: "('e + 'a) list \<Rightarrow> 'e + 'a list" where
  "sequence [] = Inr []"
| "sequence (x # xs) =
     (case x of
        Inl e \<Rightarrow> Inl e
      | Inr y \<Rightarrow> (case sequence xs of Inl e \<Rightarrow> Inl e | Inr ys \<Rightarrow> Inr (y # ys)))"

text \<open>
  \<open>np.random.uniform(low, high, size=(n, m))\<close> fills the array in row-major order from
  successive draws.
\<close>

fun uniform_row :: "'s random_ops \<Rightarrow> real \<Rightarrow> real \<Rightarrow> nat \<Rightarrow> 's \<Rightarrow> real list \<times> 's" where
  "uniform_row R lo hi 0 s = ([], s)"
| "uniform_row R lo hi (Suc m) s =
     (let (x, s') = uniform R lo hi s;
          (xs, s'') = uniform_row R lo hi m s'
      in (x # xs, s''))"

fun uniform_size ::
  "'s random_ops \<Rightarrow> real \<Rightarrow> real \<Rightarrow> nat \<Rightarrow> nat \<Rightarrow> 's \<Rightarrow> real list list \<times> 's" where
  "uniform_size R lo hi 0 m s = ([], s)"
| "uniform_size R lo hi (Suc n) m s =
     (let (row, s') = uniform_row R lo hi m s;
          (rows, s'') = uniform_size R lo hi n m s'
      in (row # rows, s''))"

definition fill ::
  "'v vector_ops \<Rightarrow> process_output \<Rightarrow> ('v, 'a) event_scheme list
     \<Rightarrow> string \<Rightarrow> string \<Rightarrow> string \<Rightarrow> process_output" where
  "fill ops out evs dataset_name cut_name region_name =
     out\<lparr>cutflow := cutflow out
                    @ map (\<lambda>e. (dataset_name, cut_name, region_name, weight e)) evs,
         hists_m4j := hists_m4j out
                      @ map (\<lambda>e. (dataset_name, cut_name, region_name,
                                   mass ops (v4j ops e), weight e)) evs\<rparr>"

text \<open>
  \<open>process\<close> takes the state of the global generator and returns it with the result.
  With \<open>debug\<close> set, the final \<open>print\<close> reads the name \<open>nEvent\<close>, which is not bound
  inside \<open>process\<close>.
\<close>

definition process ::
  "analysis \<Rightarrow> 'v vector_ops \<Rightarrow> 's random_ops \<Rightarrow> metadata \<Rightarrow> 'v event list \<Rightarrow> 's
     \<Rightarrow> (error + process_output) \<times> 's" where
  "process self ops R md event s_in =
     (let s0 = seed R 0;
          out0 = \<lparr>hists_m4j = [], cutflow = [],
                  sumw = sum_list (map weight event), nEvent = length event\<rparr>;
          out1 = fill ops out0 event (dataset md) ''all'' ''inclusive'';
          event1 = preselection ops event;
          out2 = fill ops out1 event1 (dataset md) ''preselection'' ''inclusive''
      in case sequence (map (event_diJet ops) event1) of
           Inl e \<Rightarrow> (Inl e, s0)
         | Inr dss \<Rightarrow>
             (let (rnd, s1) = uniform_size R 0.1 0.9 (length dss) 3 s0
              in case sequence (map (\<lambda>(ev, ds, rs). reconstruct ops ev ds rs)
                                    (zip event1 (zip dss rnd))) of
                   Inl e \<Rightarrow> (Inl e, s1)
                 | Inr event2 \<Rightarrow>
                     (let out3 = fill ops out2 (filter event_reco.diJetMass event2)
                                   (dataset md) ''preselection'' ''diJetMass'';
                          out4 = fill ops out3 (filter event_reco.SB event2)
                                   (dataset md) ''preselection'' ''SB'';
                          out5 = fill ops out4 (filter event_reco.SR event2)
                                   (dataset md) ''preselection'' ''SR''
                      in if debug self then (Inl NameError, s1) else (Inr out5, s1))))"

section \<open>Notions used to state the properties\<close>

text \<open>
  The jets that make up the two dijets of pairing \<open>p\<close>, by position in the event's jet
  list: the array expression combines entry \<open>(p, k)\<close> of \<open>Jet[:, pairing[0]]\<close> with entry
  \<open>(p, k)\<close> of \<open>Jet[:, pairing[1]]\<close>.
\<close>

definition slot_indices :: "nat \<Rightarrow> (nat \<times> nat) list" where
  "slot_indices p = zip (pairing ! 0 ! p) (pairing ! 1 ! p)"

definition slot_partition :: "nat \<Rightarrow> nat set set" where
  "slot_partition p = set (map (\<lambda>(i, j). {i, j}) (slot_indices p))"

definition constituents :: "('v, 'a) diJet_scheme \<Rightarrow> 'v list" where
  "constituents d = [diJet.lead d, diJet.subl d]"

text \<open>
  Two predicates on a dijet: its \<open>lead\<close> jet has at least the \<open>pt\<close> of its \<open>subl\<close> jet;
  both of its jets are flagged selected.
\<close>

definition pt_ordered :: "'v vector_ops \<Rightarrow> ('v, 'a) diJet_scheme \<Rightarrow> bool" where
  "pt_ordered ops d \<longleftrightarrow> pt ops (diJet.subl d) \<le> pt ops (diJet.lead d)"

definition constituents_selected :: "'v vector_ops \<Rightarrow> ('v, 'a) diJet_scheme \<Rightarrow> bool" where
  "constituents_selected ops d = list_all (Jet_selected ops) (constituents d)"

text \<open>The sum of the four pass/fail terms of the rank, without the random term.\<close>

definition discrete_rank :: "('v, 'a) quadJet_scheme \<Rightarrow> nat" where
  "discrete_rank q =
     10 * of_bool (diJet_cut.diJetMass (quadJet.lead q))
     + 10 * of_bool (diJet_cut.diJetMass (quadJet.subl q))
     + of_bool (drc (quadJet.lead q)) + of_bool (drc (quadJet.subl q))"


text \<open>
  An instance of the vector operations on which the model can be evaluated: a vector is a
  triple \<open>(pt, eta, mass)\<close>, sums add \<open>pt\<close> and \<open>mass\<close>, and \<open>delta_r\<close> is the distance in
  \<open>eta\<close>. It is used for concrete events only; the properties are proved for every instance.
\<close>

definition tuple_ops :: "(real \<times> real \<times> real) vector_ops" where
  "tuple_ops =
     \<lparr>vec_add = (\<lambda>(p, e, m) (p', e', m'). (p + p', (e + e') / 2, m + m')),
      vec_sum = (\<lambda>js. (sum_list (map fst js), 0, sum_list (map (snd \<circ> snd) js))),
      pt = fst,
      eta = fst \<circ> snd,
      mass = snd \<circ> snd,
      delta_r = (\<lambda>(p, e, m) (p', e', m'). \<bar>e - e'\<bar>)\<rparr>"

text \<open>
  Concrete events: four selected jets in order of \<open>pt\<close>; four selected jets of which two
  pairings pass the same cuts; five jets of which the first is not selected; four selected
  jets not in order of \<open>pt\<close>; four jets of which only three are selected.
\<close>

definition event_ordered :: "(real \<times> real \<times> real) event" where
  "event_ordered =
     \<lparr>weight = 1, Jet = [(100, 0, 50), (80, 1, 50), (60, - 1, 50), (50, 2, 50)]\<rparr>"


definition event_five_jets :: "(real \<times> real \<times> real) event" where
  "event_five_jets =
     \<lparr>weight = 1,
      Jet = [(10, 0, 5), (100, 0, 50), (80, 1, 50), (60, - 1, 50), (50, 2, 50)]\<rparr>"

definition event_unordered :: "(real \<times> real \<times> real) event" where
  "event_unordered =
     \<lparr>weight = 1, Jet = [(50, 0, 50), (100, 1, 50), (60, - 1, 50), (70, 2, 50)]\<rparr>"

definition event_three_selected :: "(real \<times> real \<times> real) event" where
  "event_three_selected =
     \<lparr>weight = 1, Jet = [(100, 0, 50), (80, 1, 50), (60, - 1, 50), (30, 2, 50)]\<rparr>"

text \<open>
  An instance of the generator, for evaluation: the state counts the draws, and the draws
  cycle through four values of the interval.
\<close>

definition counter_random :: "nat random_ops" where
  "counter_random =
     \<lparr>seed = (\<lambda>n. n),
      uniform = (\<lambda>lo hi s. (lo + (hi - lo) * (real (s mod 4) / 4), Suc s))\<rparr>"

definition chunk_metadata :: metadata where
  "chunk_metadata = \<lparr>filename = ''toy.root'', dataset = ''toy'', entrystart = 0, entrystop = 2\<rparr>"

section \<open>Auxiliary facts\<close>

subsection \<open>Lists of fixed length\<close>

lemma upt_3: "[0..<3] = [0, Suc 0, 2]"
  by (simp add: upt_rec)

lemma upt_4: "[0..<4] = [0, Suc 0, 2, 3]"
  by (simp add: upt_rec)

lemma set_upt_4: "{0..<4::nat} = {0, 1, 2, 3}"
  by auto

lemma less_3_cases: "p < 3 \<longleftrightarrow> p = 0 \<or> p = Suc 0 \<or> p = 2"
  by auto


lemma length_4_cases:
  assumes "length js = 4"
  obtains a b c d where "js = [a, b, c, d]"
  using assms by (auto simp: length_Suc_conv numeral_eq_Suc)

lemma take_4:
  assumes "4 \<le> length js"
  shows "take 4 js = [js ! 0, js ! 1, js ! 2, js ! 3]"
proof -
  from assms obtain a b c d rest where "js = a # b # c # d # rest"
    by (auto simp: numeral_eq_Suc Suc_le_length_iff)
  then show ?thesis by (simp add: numeral_eq_Suc)
qed

subsection \<open>The pairing table\<close>

lemma slot_indices_values:
  "slot_indices 0 = [(0, 1), (2, 3)]"
  "slot_indices (Suc 0) = [(0, 2), (1, 3)]"
  "slot_indices 2 = [(0, 3), (1, 2)]"
  by (simp_all add: slot_indices_def pairing_def)

lemma slot_partition_values:
  "slot_partition 0 = {{0, 1}, {2, 3}}"
  "slot_partition (Suc 0) = {{0, 2}, {1, 3}}"
  "slot_partition 2 = {{0, 3}, {1, 2}}"
  by (simp_all add: slot_partition_def slot_indices_values)

lemma pair_partition_with_0:
  fixes A B :: "nat set"
  assumes "0 \<in> A" "A \<union> B = {0, 1, 2, 3}" "A \<inter> B = {}" "card A = 2"
  shows "{A, B} \<in> {slot_partition 0, slot_partition (Suc 0), slot_partition 2}"
proof -
  have "finite A" using assms(4) by (simp add: card_ge_0_finite)
  then have "card (A - {0}) = 1" using assms(1,4) by simp
  then obtain x where x: "A - {0} = {x}" by (auto simp: card_1_singleton_iff)
  have "x \<in> A - {0}" unfolding x by simp
  then have xA: "x \<in> A" and x0: "x \<noteq> 0" by simp_all
  have A: "A = {0, x}" using insert_Diff [OF assms(1)] x by simp
  have "x \<in> A \<union> B" using xA by simp
  then have "x \<in> {0, 1, 2, 3}" unfolding assms(2) .
  then have cases: "x = 1 \<or> x = 2 \<or> x = 3" using x0 by simp
  have "B = (A \<union> B) - A" using assms(3) by blast
  then have "B = {0, 1, 2, 3} - A" by (simp only: assms(2))
  then have B: "B = {0, 1, 2, 3} - {0, x}" by (simp only: A)
  from cases show ?thesis
  proof (elim disjE)
    assume 1: "x = 1"
    have "B = {2, 3}" unfolding B 1 by auto
    then show ?thesis unfolding A 1 by (simp add: slot_partition_values)
  next
    assume 2: "x = 2"
    have "B = {1, 3}" unfolding B 2 by auto
    then show ?thesis unfolding A 2 by (simp add: slot_partition_values)
  next
    assume 3: "x = 3"
    have "B = {1, 2}" unfolding B 3 by auto
    then show ?thesis unfolding A 3 by (simp add: slot_partition_values)
  qed
qed

lemma pair_partition_is_slot:
  fixes A B :: "nat set"
  assumes "A \<union> B = {0, 1, 2, 3}" "A \<inter> B = {}" "card A = 2" "card B = 2"
  shows "{A, B} \<in> {slot_partition 0, slot_partition (Suc 0), slot_partition 2}"
proof -
  have "0 \<in> A \<union> B" unfolding assms(1) by simp
  then have "0 \<in> A \<or> 0 \<in> B" by simp
  then show ?thesis
  proof
    assume "0 \<in> A"
    then show ?thesis using assms(1-3) by (rule pair_partition_with_0)
  next
    assume 0: "0 \<in> B"
    have u: "B \<union> A = {0, 1, 2, 3}" using assms(1) by (simp only: Un_commute)
    have i: "B \<inter> A = {}" using assms(2) by (simp only: Int_commute)
    have "{B, A} \<in> {slot_partition 0, slot_partition (Suc 0), slot_partition 2}"
      by (rule pair_partition_with_0 [OF 0 u i assms(4)])
    then show ?thesis by (simp only: insert_commute)
  qed
qed

lemma slot_partitions_distinct: "distinct (map slot_partition [0..<3])"
  by (simp add: upt_3 slot_partition_values doubleton_eq_iff)

subsection \<open>Building and sorting the dijets\<close>

lemma build_diJet_ge4:
  assumes "4 \<le> length js"
  shows "build_diJet ops js =
     Inr [[make_diJet ops (js ! 0) (js ! 1), make_diJet ops (js ! 2) (js ! 3)],
          [make_diJet ops (js ! 0) (js ! 2), make_diJet ops (js ! 1) (js ! 3)],
          [make_diJet ops (js ! 0) (js ! 3), make_diJet ops (js ! 1) (js ! 2)]]"
proof -
  have "0 < length js" "Suc 0 < length js" "2 < length js" "3 < length js"
    using assms by arith+
  then show ?thesis
    by (simp add: build_diJet_def getitem_def pairing_def)
qed

lemma sort_st_pair:
  "sort_st [x, y] = (if st y \<le> st x then [x, y] else [y, x])"
  by (simp add: sort_st_def argsort_descending_def upt_rec)

lemma sort_st_pair_cases:
  obtains x' y' where "sort_st [x, y] = [x', y']" "st y' \<le> st x'"
    "(x' = x \<and> y' = y) \<or> (x' = y \<and> y' = x)"
  by (cases "st y \<le> st x") (auto simp: sort_st_pair)

lemma length_sort_st_pair: "length (sort_st [x, y]) = 2"
  by (simp add: sort_st_pair)

lemma image_mset_sort_st_pair: "image_mset f (mset (sort_st [x, y])) = {#f x, f y#}"
  by (simp add: sort_st_pair)

lemma mset_concat_sort_st_pair:
  "mset (concat (map g (sort_st [x, y]))) = mset (g x) + mset (g y)"
  by (simp add: sort_st_pair)

lemma sorted_diJet_ge4:
  assumes "4 \<le> length js"
  shows "sorted_diJet ops js =
     Inr [sort_st [make_diJet ops (js ! 0) (js ! 1), make_diJet ops (js ! 2) (js ! 3)],
          sort_st [make_diJet ops (js ! 0) (js ! 2), make_diJet ops (js ! 1) (js ! 3)],
          sort_st [make_diJet ops (js ! 0) (js ! 3), make_diJet ops (js ! 1) (js ! 2)]]"
  by (simp add: sorted_diJet_def build_diJet_ge4 [OF assms])

lemma constituents_make_diJet: "constituents (make_diJet ops a b) = [a, b]"
  by (simp add: constituents_def make_diJet_def)

lemma slot_two_cases:
  assumes "{x, y} = {a, b}"
  shows "(x = a \<and> y = b) \<or> (x = b \<and> y = a)"
  using assms by (auto simp: doubleton_eq_iff)

lemma sorted_slot:
  fixes js :: "'v list"
  assumes i: "slot_indices p = [(i, j), (k, l)]"
    and js: "mset [js ! i, js ! j, js ! k, js ! l] = mset js"
    and ijkl: "mset [i, j, k, l] = mset [0..<4]"
  shows "length (sort_st [make_diJet ops (js ! i) (js ! j), make_diJet ops (js ! k) (js ! l)]) = 2
     \<and> mset (map (\<lambda>d. (diJet.lead d, diJet.subl d))
          (sort_st [make_diJet ops (js ! i) (js ! j), make_diJet ops (js ! k) (js ! l)]))
       = mset (map (\<lambda>(i, j). (js ! i, js ! j)) (slot_indices p))
     \<and> mset (concat (map constituents
          (sort_st [make_diJet ops (js ! i) (js ! j), make_diJet ops (js ! k) (js ! l)])))
       = mset js
     \<and> mset (concat (map (\<lambda>(i, j). [i, j]) (slot_indices p))) = mset [0..<4]"
proof (intro conjI)
  show "length (sort_st [make_diJet ops (js ! i) (js ! j), make_diJet ops (js ! k) (js ! l)]) = 2"
    by (rule length_sort_st_pair)
  show "mset (map (\<lambda>d. (diJet.lead d, diJet.subl d))
          (sort_st [make_diJet ops (js ! i) (js ! j), make_diJet ops (js ! k) (js ! l)]))
       = mset (map (\<lambda>(i, j). (js ! i, js ! j)) (slot_indices p))"
    by (simp add: i image_mset_sort_st_pair make_diJet_def)
  have "mset (concat (map constituents
          (sort_st [make_diJet ops (js ! i) (js ! j), make_diJet ops (js ! k) (js ! l)])))
       = mset [js ! i, js ! j, js ! k, js ! l]"
    by (simp add: mset_concat_sort_st_pair constituents_def make_diJet_def)
  then show "mset (concat (map constituents
          (sort_st [make_diJet ops (js ! i) (js ! j), make_diJet ops (js ! k) (js ! l)])))
       = mset js"
    by (simp only: js)
  have "mset (concat (map (\<lambda>(i, j). [i, j]) (slot_indices p))) = mset [i, j, k, l]"
    by (simp add: i)
  then show "mset (concat (map (\<lambda>(i, j). [i, j]) (slot_indices p))) = mset [0..<4]"
    by (simp only: ijkl)
qed

subsection \<open>Fields of the records\<close>

lemma truncate_extend [simp]: "quadJet.truncate (quadJet.extend q m) = q"
  by (simp add: quadJet.truncate_def quadJet.extend_def)

lemma selected_extend [simp]: "selected (quadJet.extend q (quadJet_sel.fields b)) = b"
  by (simp add: quadJet.extend_def quadJet_sel.fields_def)

lemma sel_extend [simp]:
  "quadJet.lead (quadJet.extend q m) = quadJet.lead q"
  "quadJet.subl (quadJet.extend q m) = quadJet.subl q"
  "quadJet.diJetMass (quadJet.extend q m) = quadJet.diJetMass q"
  "random (quadJet.extend q m) = random q"
  "quadJet.dr (quadJet.extend q m) = quadJet.dr q"
  "xHH (quadJet.extend q m) = xHH q"
  "quadJet.SR (quadJet.extend q m) = quadJet.SR q"
  "quadJet.SB (quadJet.extend q m) = quadJet.SB q"
  "rank (quadJet.extend q m) = rank q"
  by (simp_all add: quadJet.extend_def)

lemma sel_truncate:
  "quadJet.lead (quadJet.truncate q) = quadJet.lead q"
  "quadJet.subl (quadJet.truncate q) = quadJet.subl q"
  "quadJet.diJetMass (quadJet.truncate q) = quadJet.diJetMass q"
  "random (quadJet.truncate q) = random q"
  "quadJet.dr (quadJet.truncate q) = quadJet.dr q"
  "xHH (quadJet.truncate q) = xHH q"
  "quadJet.SR (quadJet.truncate q) = quadJet.SR q"
  "quadJet.SB (quadJet.truncate q) = quadJet.SB q"
  "rank (quadJet.truncate q) = rank q"
  by (simp_all add: quadJet.truncate_def)

lemma classify_sel:
  "p4 (classify ops m k d) = p4 d"
  "st (classify ops m k d) = st d"
  "diJet.dr (classify ops m k d) = diJet.dr d"
  "diJet.lead (classify ops m k d) = diJet.lead d"
  "diJet.subl (classify ops m k d) = diJet.subl d"
  "diJet_cut.diJetMass (classify ops m k d) = diJetMass_cut k (mass ops (p4 d))"
  "drc (classify ops m k d) = drc_cut k m (diJet.dr d)"
  "xH (classify ops m k d) = xH_value k (mass ops (p4 d))"
  by (simp_all add: classify_def)

lemma constituents_classify: "constituents (classify ops m k d) = constituents d"
  by (simp add: constituents_def classify_sel)

lemma classify_slot_pair:
  "classify_slot ops m [x, y] = [classify ops m 0 x, classify ops m (Suc 0) y]"
  by (simp add: classify_slot_def)

lemma make_quadJet_pair:
  "quadJet.lead (make_quadJet ops [l, s] r) = l"
  "quadJet.subl (make_quadJet ops [l, s] r) = s"
  "quadJet.diJetMass (make_quadJet ops [l, s] r)
     = (diJet_cut.diJetMass l \<and> diJet_cut.diJetMass s)"
  "random (make_quadJet ops [l, s] r) = r"
  "xHH (make_quadJet ops [l, s] r) = xHH_value (xH l) (xH s)"
  "quadJet.SR (make_quadJet ops [l, s] r) = SR_cut (xHH_value (xH l) (xH s))"
  "quadJet.SB (make_quadJet ops [l, s] r)
     = ((diJet_cut.diJetMass l \<and> diJet_cut.diJetMass s) \<and> \<not> SR_cut (xHH_value (xH l) (xH s)))"
  "rank (make_quadJet ops [l, s] r)
     = 10 * of_bool (diJet_cut.diJetMass l) + 10 * of_bool (diJet_cut.diJetMass s)
       + of_bool (drc l) + of_bool (drc s) + r"
  by (simp_all add: make_quadJet_def Let_def)



subsection \<open>Slots and candidates of a surviving event\<close>

lemma nJet_selected_le: "nJet_selected ops ev \<le> length (Jet ev)"
  by (simp add: nJet_selected_def)

lemma all_selected:
  assumes "4 \<le> nJet_selected ops ev" "length (Jet ev) = 4"
  shows "\<forall>j\<in>set (Jet ev). Jet_selected ops j"
proof (rule ccontr)
  assume "\<not> (\<forall>j\<in>set (Jet ev). Jet_selected ops j)"
  then obtain j where "j \<in> set (Jet ev)" "\<not> Jet_selected ops j" by blast
  then have "length (filter (Jet_selected ops) (Jet ev)) < length (Jet ev)"
    by (rule length_filter_less)
  with assms show False by (simp add: nJet_selected_def)
qed

lemma event_diJet_ge4:
  assumes "4 \<le> length (Jet ev)"
  shows "event_diJet ops ev =
     Inr (map (classify_slot ops (mass ops (v4j ops ev)))
       [sort_st [make_diJet ops (Jet ev ! 0) (Jet ev ! 1), make_diJet ops (Jet ev ! 2) (Jet ev ! 3)],
        sort_st [make_diJet ops (Jet ev ! 0) (Jet ev ! 2), make_diJet ops (Jet ev ! 1) (Jet ev ! 3)],
        sort_st [make_diJet ops (Jet ev ! 0) (Jet ev ! 3), make_diJet ops (Jet ev ! 1) (Jet ev ! 2)]])"
  by (simp add: event_diJet_def sorted_diJet_ge4 [OF assms])

text \<open>The shape of every slot of a surviving event.\<close>

lemma event_diJet_slot:
  assumes len: "4 \<le> length (Jet ev)"
    and ds: "event_diJet ops ev = Inr ds"
    and slot: "slot \<in> set ds"
  obtains i j k l x y where
    "(i, j, k, l) \<in> {(0, 1, 2, 3), (0, 2, 1, 3), (0, 3, 1, 2)}"
    "{x, y} = {make_diJet ops (Jet ev ! i) (Jet ev ! j), make_diJet ops (Jet ev ! k) (Jet ev ! l)}"
    "st y \<le> st x"
    "slot = [classify ops (mass ops (v4j ops ev)) 0 x,
             classify ops (mass ops (v4j ops ev)) (Suc 0) y]"
proof -
  let ?m = "mass ops (v4j ops ev)"
  let ?J = "Jet ev"
  have shape: "\<And>a b. \<exists>x y. {x, y} = {a, b} \<and> st y \<le> st x
      \<and> classify_slot ops ?m (sort_st [a, b]) = [classify ops ?m 0 x, classify ops ?m (Suc 0) y]"
  proof -
    fix a b :: "'a diJet"
    obtain x' y' where "sort_st [a, b] = [x', y']" "st y' \<le> st x'"
      "(x' = a \<and> y' = b) \<or> (x' = b \<and> y' = a)"
      by (rule sort_st_pair_cases)
    then show "\<exists>x y. {x, y} = {a, b} \<and> st y \<le> st x
      \<and> classify_slot ops ?m (sort_st [a, b]) = [classify ops ?m 0 x, classify ops ?m (Suc 0) y]"
      by (intro exI [of _ x'] exI [of _ y']) (auto simp: classify_slot_pair)
  qed
  from ds slot have "slot = classify_slot ops ?m (sort_st [make_diJet ops (?J ! 0) (?J ! 1), make_diJet ops (?J ! 2) (?J ! 3)])
     \<or> slot = classify_slot ops ?m (sort_st [make_diJet ops (?J ! 0) (?J ! 2), make_diJet ops (?J ! 1) (?J ! 3)])
     \<or> slot = classify_slot ops ?m (sort_st [make_diJet ops (?J ! 0) (?J ! 3), make_diJet ops (?J ! 1) (?J ! 2)])"
    unfolding event_diJet_ge4 [OF len] by auto
  then show ?thesis
  proof (elim disjE)
    assume s: "slot = classify_slot ops ?m (sort_st [make_diJet ops (?J ! 0) (?J ! 1), make_diJet ops (?J ! 2) (?J ! 3)])"
    from shape [of "make_diJet ops (?J ! 0) (?J ! 1)" "make_diJet ops (?J ! 2) (?J ! 3)"]
    obtain x y where "{x, y} = {make_diJet ops (?J ! 0) (?J ! 1), make_diJet ops (?J ! 2) (?J ! 3)}"
      "st y \<le> st x" "slot = [classify ops ?m 0 x, classify ops ?m (Suc 0) y]"
      unfolding s by blast
    then show ?thesis by (intro that [of 0 1 2 3 x y]) simp_all
  next
    assume s: "slot = classify_slot ops ?m (sort_st [make_diJet ops (?J ! 0) (?J ! 2), make_diJet ops (?J ! 1) (?J ! 3)])"
    from shape [of "make_diJet ops (?J ! 0) (?J ! 2)" "make_diJet ops (?J ! 1) (?J ! 3)"]
    obtain x y where "{x, y} = {make_diJet ops (?J ! 0) (?J ! 2), make_diJet ops (?J ! 1) (?J ! 3)}"
      "st y \<le> st x" "slot = [classify ops ?m 0 x, classify ops ?m (Suc 0) y]"
      unfolding s by blast
    then show ?thesis by (intro that [of 0 2 1 3 x y]) simp_all
  next
    assume s: "slot = classify_slot ops ?m (sort_st [make_diJet ops (?J ! 0) (?J ! 3), make_diJet ops (?J ! 1) (?J ! 2)])"
    from shape [of "make_diJet ops (?J ! 0) (?J ! 3)" "make_diJet ops (?J ! 1) (?J ! 2)"]
    obtain x y where "{x, y} = {make_diJet ops (?J ! 0) (?J ! 3), make_diJet ops (?J ! 1) (?J ! 2)}"
      "st y \<le> st x" "slot = [classify ops ?m 0 x, classify ops ?m (Suc 0) y]"
      unfolding s by blast
    then show ?thesis by (intro that [of 0 3 1 2 x y]) simp_all
  qed
qed

lemma event_diJet_length:
  assumes "4 \<le> length (Jet ev)" "event_diJet ops ev = Inr ds"
  shows "length ds = 3"
  using assms(2) unfolding event_diJet_ge4 [OF assms(1)] by auto

lemma event_diJet_total:
  assumes "4 \<le> nJet_selected ops ev"
  shows "4 \<le> length (Jet ev)" "\<exists>ds. event_diJet ops ev = Inr ds"
proof -
  show len: "4 \<le> length (Jet ev)" using assms nJet_selected_le [of ops ev] by linarith
  show "\<exists>ds. event_diJet ops ev = Inr ds" unfolding event_diJet_ge4 [OF len] by blast
qed

lemma event_diJet_slot_constituents:
  assumes len: "4 \<le> length (Jet ev)"
    and ds: "event_diJet ops ev = Inr ds"
    and slot: "slot \<in> set ds"
  obtains i j k l c0 c1 where
    "(i, j, k, l) \<in> {(0, 1, 2, 3), (0, 2, 1, 3), (0, 3, 1, 2)}"
    "slot = [c0, c1]"
    "(constituents c0 = [Jet ev ! i, Jet ev ! j] \<and> constituents c1 = [Jet ev ! k, Jet ev ! l])
     \<or> (constituents c0 = [Jet ev ! k, Jet ev ! l] \<and> constituents c1 = [Jet ev ! i, Jet ev ! j])"
proof -
  from event_diJet_slot [OF len ds slot] obtain i j k l x y where
    ijkl: "(i, j, k, l) \<in> {(0, 1, 2, 3), (0, 2, 1, 3), (0, 3, 1, 2)}"
    and xy: "{x, y} = {make_diJet ops (Jet ev ! i) (Jet ev ! j), make_diJet ops (Jet ev ! k) (Jet ev ! l)}"
    and s: "slot = [classify ops (mass ops (v4j ops ev)) 0 x,
             classify ops (mass ops (v4j ops ev)) (Suc 0) y]"
    by metis
  from slot_two_cases [OF xy]
  have "(constituents x = [Jet ev ! i, Jet ev ! j] \<and> constituents y = [Jet ev ! k, Jet ev ! l])
     \<or> (constituents x = [Jet ev ! k, Jet ev ! l] \<and> constituents y = [Jet ev ! i, Jet ev ! j])"
    by (auto simp: constituents_make_diJet)
  then have "(constituents (classify ops (mass ops (v4j ops ev)) 0 x) = [Jet ev ! i, Jet ev ! j]
       \<and> constituents (classify ops (mass ops (v4j ops ev)) (Suc 0) y) = [Jet ev ! k, Jet ev ! l])
     \<or> (constituents (classify ops (mass ops (v4j ops ev)) 0 x) = [Jet ev ! k, Jet ev ! l]
       \<and> constituents (classify ops (mass ops (v4j ops ev)) (Suc 0) y) = [Jet ev ! i, Jet ev ! j])"
    by (simp only: constituents_classify)
  with ijkl s show ?thesis by (rule that)
qed

lemma event_quadJet_mem:
  assumes "q \<in> set (event_quadJet ops ds rs)"
  obtains slot r where "slot \<in> set ds" "r \<in> set rs"
    "quadJet.truncate q = make_quadJet ops slot r"
proof -
  from assms obtain slot r where "(slot, r) \<in> set (zip ds rs)"
    "q = quadJet.extend (make_quadJet ops slot r)
           (quadJet_sel.fields (rank (make_quadJet ops slot r)
              = Max (set (map rank (map2 (make_quadJet ops) ds rs)))))"
    by (auto simp: event_quadJet_def mark_selected_def)
  then show ?thesis
    by (intro that [of slot r]) (auto dest: set_zip_leftD set_zip_rightD)
qed

text \<open>Every candidate of a surviving event is built from a slot of that shape.\<close>

lemma event_quadJet_candidate:
  assumes len: "4 \<le> length (Jet ev)"
    and ds: "event_diJet ops ev = Inr ds"
    and q: "q \<in> set (event_quadJet ops ds rs)"
  obtains i j k l x y r where
    "(i, j, k, l) \<in> {(0, 1, 2, 3), (0, 2, 1, 3), (0, 3, 1, 2)}"
    "{x, y} = {make_diJet ops (Jet ev ! i) (Jet ev ! j), make_diJet ops (Jet ev ! k) (Jet ev ! l)}"
    "st y \<le> st x"
    "r \<in> set rs"
    "quadJet.truncate q =
       make_quadJet ops [classify ops (mass ops (v4j ops ev)) 0 x,
                         classify ops (mass ops (v4j ops ev)) (Suc 0) y] r"
proof -
  from q obtain slot r where "slot \<in> set ds" "r \<in> set rs"
    "quadJet.truncate q = make_quadJet ops slot r"
    by (rule event_quadJet_mem)
  moreover from event_diJet_slot [OF len ds \<open>slot \<in> set ds\<close>]
  obtain i j k l x y where
    "(i, j, k, l) \<in> {(0, 1, 2, 3), (0, 2, 1, 3), (0, 3, 1, 2)}"
    "{x, y} = {make_diJet ops (Jet ev ! i) (Jet ev ! j), make_diJet ops (Jet ev ! k) (Jet ev ! l)}"
    "st y \<le> st x"
    "slot = [classify ops (mass ops (v4j ops ev)) 0 x,
             classify ops (mass ops (v4j ops ev)) (Suc 0) y]"
    by metis
  ultimately show ?thesis by (intro that [of i j k l x y r]) simp_all
qed

lemma length_event_quadJet:
  "length (event_quadJet ops ds rs) = min (length ds) (length rs)"
  by (simp add: event_quadJet_def mark_selected_def)

lemma event_quadJet_nth_fields:
  assumes "k < length ds" "k < length rs"
  shows "quadJet.SB (event_quadJet ops ds rs ! k) = quadJet.SB (make_quadJet ops (ds ! k) (rs ! k))"
    "discrete_rank (event_quadJet ops ds rs ! k)
       = discrete_rank (make_quadJet ops (ds ! k) (rs ! k))"
    "rank (event_quadJet ops ds rs ! k) = rank (make_quadJet ops (ds ! k) (rs ! k))"
    "selected (event_quadJet ops ds rs ! k)
       = (rank (make_quadJet ops (ds ! k) (rs ! k))
          = Max (set (map rank (map2 (make_quadJet ops) ds rs))))"
  using assms by (simp_all add: event_quadJet_def mark_selected_def discrete_rank_def)

subsection \<open>The cuts\<close>

lemma drc_cut_lead:
  "m \<noteq> 0 \<Longrightarrow> drc_cut 0 m r = (360 / m - 0.5 < r \<and> r < max (650 / m + 0.5) 1.5)"
  by (simp add: drc_cut_def min_m4j_scale_def min_dr_offset_def max_m4j_scale_def
      max_dr_offset_def max_dr_def)

lemma drc_cut_subl:
  "m \<noteq> 0 \<Longrightarrow> drc_cut (Suc 0) m r = (235 / m + 0.0 < r \<and> r < max (650 / m + 0.7) 1.5)"
  by (simp add: drc_cut_def min_m4j_scale_def min_dr_offset_def max_m4j_scale_def
      max_dr_offset_def max_dr_def)

lemma drc_cut_zero: "\<not> drc_cut k 0 r"
  by (simp add: drc_cut_def)

lemma drc_cut_400: "drc_cut 0 400 r = (0.4 < r \<and> r < 2.125)"
  by (simp add: drc_cut_lead)

lemma SR_cut_iff: "SR_cut v = (\<exists>x. v = Some x \<and> x < 1.9)"
  by (cases v) (simp_all add: SR_cut_def max_xHH_def)

subsection \<open>The maximal rank\<close>






subsection \<open>The draws\<close>

text \<open>
  If every single draw of the generator lies in \<open>[lo, hi)\<close>, as documented for
  \<open>np.random.uniform\<close>, then so does every entry of the array of draws, and the array has
  the requested shape.
\<close>

lemma uniform_row_range:
  assumes "\<And>s. lo \<le> fst (uniform R lo hi s) \<and> fst (uniform R lo hi s) < hi"
  shows "length (fst (uniform_row R lo hi m s)) = m
     \<and> (\<forall>r\<in>set (fst (uniform_row R lo hi m s)). lo \<le> r \<and> r < hi)"
proof (induction m arbitrary: s)
  case 0
  show ?case by simp
next
  case (Suc m)
  from assms [of s] Suc [of "snd (uniform R lo hi s)"] show ?case
    by (simp add: split_beta)
qed

lemma uniform_size_range:
  assumes "\<And>s. lo \<le> fst (uniform R lo hi s) \<and> fst (uniform R lo hi s) < hi"
  shows "length (fst (uniform_size R lo hi n m s)) = n
     \<and> (\<forall>row\<in>set (fst (uniform_size R lo hi n m s)).
           length row = m \<and> (\<forall>r\<in>set row. lo \<le> r \<and> r < hi))"
proof (induction n arbitrary: s)
  case 0
  show ?case by simp
next
  case (Suc n)
  from uniform_row_range [OF assms, of m s] Suc [of "snd (uniform_row R lo hi m s)"]
  show ?case by (simp add: split_beta)
qed

subsection \<open>Evaluation on concrete events\<close>

lemma nJet_selected_event_ordered: "nJet_selected tuple_ops event_ordered = 4"
  by (simp add: nJet_selected_def Jet_selected_def tuple_ops_def event_ordered_def)


lemma nJet_selected_event_five_jets: "nJet_selected tuple_ops event_five_jets = 4"
  by (simp add: nJet_selected_def Jet_selected_def tuple_ops_def event_five_jets_def)

lemma nJet_selected_event_unordered: "nJet_selected tuple_ops event_unordered = 4"
  by (simp add: nJet_selected_def Jet_selected_def tuple_ops_def event_unordered_def)

lemmas eval_defs =
  event_diJet_def sorted_diJet_def build_diJet_def getitem_def pairing_def
  sort_st_pair classify_slot_pair classify_def make_diJet_def tuple_ops_def
  v4j_def diJetMass_cut_def drc_cut_def xH_value_def
  minDiJetMass_def maxDiJetMass_def min_m4j_scale_def min_dr_offset_def
  max_m4j_scale_def max_dr_offset_def max_dr_def mH_def st_bias_def cH_def

lemma event_diJet_event_ordered:
  "event_diJet tuple_ops event_ordered =
   Inr [[\<lparr>p4 = (180, 1 / 2, 100), st = 180, diJet.dr = 1, diJet.lead = (100, 0, 50),
          diJet.subl = (80, 1, 50), diJet_cut.diJetMass = True, drc = False,
          xH = Some (- (11 / 4))\<rparr>,
       \<lparr>p4 = (110, 1 / 2, 100), st = 110, diJet.dr = 3, diJet.lead = (60, - 1, 50),
          diJet.subl = (50, 2, 50), diJet_cut.diJetMass = True, drc = True,
          xH = Some (- (9 / 4))\<rparr>],
      [\<lparr>p4 = (160, - (1 / 2), 100), st = 160, diJet.dr = 1, diJet.lead = (100, 0, 50),
          diJet.subl = (60, - 1, 50), diJet_cut.diJetMass = True, drc = False,
          xH = Some (- (11 / 4))\<rparr>,
       \<lparr>p4 = (130, 3 / 2, 100), st = 130, diJet.dr = 1, diJet.lead = (80, 1, 50),
          diJet.subl = (50, 2, 50), diJet_cut.diJetMass = True, drc = False,
          xH = Some (- (9 / 4))\<rparr>],
      [\<lparr>p4 = (150, 1, 100), st = 150, diJet.dr = 2, diJet.lead = (100, 0, 50),
          diJet.subl = (50, 2, 50), diJet_cut.diJetMass = True, drc = True,
          xH = Some (- (11 / 4))\<rparr>,
       \<lparr>p4 = (140, 0, 100), st = 140, diJet.dr = 2, diJet.lead = (80, 1, 50),
          diJet.subl = (60, - 1, 50), diJet_cut.diJetMass = True, drc = True,
          xH = Some (- (9 / 4))\<rparr>]]"
  by (simp add: event_diJet_def sorted_diJet_def build_diJet_def getitem_def pairing_def
      sort_st_pair classify_slot_pair classify_def make_diJet_def tuple_ops_def
      event_ordered_def v4j_def diJetMass_cut_def drc_cut_def xH_value_def
      minDiJetMass_def maxDiJetMass_def min_m4j_scale_def min_dr_offset_def
      max_m4j_scale_def max_dr_offset_def max_dr_def mH_def st_bias_def cH_def)

lemma Inr_event_ordered:
  assumes "event_diJet tuple_ops event_ordered = Inr ds"
  shows "ds =
      [[\<lparr>p4 = (180, 1 / 2, 100), st = 180, diJet.dr = 1, diJet.lead = (100, 0, 50),
          diJet.subl = (80, 1, 50), diJet_cut.diJetMass = True, drc = False,
          xH = Some (- (11 / 4))\<rparr>,
       \<lparr>p4 = (110, 1 / 2, 100), st = 110, diJet.dr = 3, diJet.lead = (60, - 1, 50),
          diJet.subl = (50, 2, 50), diJet_cut.diJetMass = True, drc = True,
          xH = Some (- (9 / 4))\<rparr>],
      [\<lparr>p4 = (160, - (1 / 2), 100), st = 160, diJet.dr = 1, diJet.lead = (100, 0, 50),
          diJet.subl = (60, - 1, 50), diJet_cut.diJetMass = True, drc = False,
          xH = Some (- (11 / 4))\<rparr>,
       \<lparr>p4 = (130, 3 / 2, 100), st = 130, diJet.dr = 1, diJet.lead = (80, 1, 50),
          diJet.subl = (50, 2, 50), diJet_cut.diJetMass = True, drc = False,
          xH = Some (- (9 / 4))\<rparr>],
      [\<lparr>p4 = (150, 1, 100), st = 150, diJet.dr = 2, diJet.lead = (100, 0, 50),
          diJet.subl = (50, 2, 50), diJet_cut.diJetMass = True, drc = True,
          xH = Some (- (11 / 4))\<rparr>,
       \<lparr>p4 = (140, 0, 100), st = 140, diJet.dr = 2, diJet.lead = (80, 1, 50),
          diJet.subl = (60, - 1, 50), diJet_cut.diJetMass = True, drc = True,
          xH = Some (- (9 / 4))\<rparr>]]"
  using assms unfolding event_diJet_event_ordered by simp

lemma not_SR_example: "\<not> SR_cut (xHH_value (Some (- (11 / 4))) (Some (- (9 / 4))))"
proof -
  have "(1.9::real)\<^sup>2 \<le> (- (11 / 4))\<^sup>2 + (- (9 / 4))\<^sup>2"
    by (simp add: power2_eq_square)
  then have "1.9 \<le> sqrt ((- (11 / 4))\<^sup>2 + (- (9 / 4))\<^sup>2)"
    by (rule real_le_rsqrt)
  then show ?thesis
    by (simp add: SR_cut_def xHH_value_def max_xHH_def not_less)
qed

lemma uniform_size_example:
  "uniform_size counter_random 0.1 0.9 (Suc 0) 3 0 = ([[0.1, 0.3, 0.5]], 3)"
  by (simp add: counter_random_def numeral_3_eq_3)

lemma preselection_example:
  "preselection tuple_ops [event_ordered, event_three_selected] = [event_ordered]"
proof -
  have "nJet_selected tuple_ops event_three_selected = 3"
    by (simp add: nJet_selected_def Jet_selected_def tuple_ops_def event_three_selected_def)
  then show ?thesis by (simp add: preselection_def nJet_selected_event_ordered)
qed

lemma first_selected_example:
  "\<exists>w. first_selected (event_quadJet tuple_ops (projr (event_diJet tuple_ops event_ordered))
           [0.1, 0.3, 0.5]) = Inr w
       \<and> quadJet.diJetMass w \<and> quadJet.SB w \<and> \<not> quadJet.SR w"
  unfolding event_diJet_event_ordered
  by (simp add: first_selected_def event_quadJet_def mark_selected_def make_quadJet_pair
      not_SR_example)

lemma process_example:
  "process \<lparr>debug = False\<rparr> tuple_ops counter_random chunk_metadata
     [event_ordered, event_three_selected] s =
   (Inr \<lparr>hists_m4j = [(''toy'', ''all'', ''inclusive'', 200, 1),
                     (''toy'', ''all'', ''inclusive'', 200, 1),
                     (''toy'', ''preselection'', ''inclusive'', 200, 1),
                     (''toy'', ''preselection'', ''diJetMass'', 200, 1),
                     (''toy'', ''preselection'', ''SB'', 200, 1)],
         cutflow = [(''toy'', ''all'', ''inclusive'', 1),
                    (''toy'', ''all'', ''inclusive'', 1),
                    (''toy'', ''preselection'', ''inclusive'', 1),
                    (''toy'', ''preselection'', ''diJetMass'', 1),
                    (''toy'', ''preselection'', ''SB'', 1)],
         sumw = 2, nEvent = 2\<rparr>, 3)"
proof -
  have seed0: "seed counter_random 0 = 0" by (simp add: counter_random_def)
  have m1: "mass tuple_ops (vec_sum tuple_ops (Jet event_ordered)) = 200"
    by (simp add: tuple_ops_def event_ordered_def)
  have m2: "mass tuple_ops (vec_sum tuple_ops (Jet event_three_selected)) = 200"
    by (simp add: tuple_ops_def event_three_selected_def)
  have w: "weight event_ordered = 1" "weight event_three_selected = 1"
    by (simp_all add: event_ordered_def event_three_selected_def)
  from first_selected_example obtain sel where
    sel: "first_selected (event_quadJet tuple_ops (projr (event_diJet tuple_ops event_ordered))
           [0.1, 0.3, 0.5]) = Inr sel"
    and flags: "quadJet.diJetMass sel" "quadJet.SB sel" "\<not> quadJet.SR sel"
    by blast
  have d: "event_diJet tuple_ops event_ordered
    = Inr (projr (event_diJet tuple_ops event_ordered))"
    unfolding event_diJet_event_ordered by simp
  show ?thesis
    unfolding process_def preselection_example seed0
    apply (simp add: Let_def)
    apply (subst d)
    apply (simp add: uniform_size_example [simplified] reconstruct_def Let_def sel [simplified] flags
        fill_def m1 m2 w chunk_metadata_def v4j_def)
    done
qed

section \<open>The pairing slots\<close>

text \<open>
  C1. For an event with exactly 4 jets the builder yields 3 pairing slots of 2 dijets each.
  The dijets of slot \<open>p\<close> are made of the jets at the positions \<open>slot_indices p\<close>; within a
  slot every jet of the event is a constituent exactly once; no two slots give the same
  partition of the positions \<open>0..3\<close>; and every partition of these positions into two
  pairs is the partition of one of the slots.
\<close>

theorem pairing_slots_partition_jets:
  assumes "length js = 4"
  shows "\<exists>ds. sorted_diJet ops js = Inr ds \<and> length ds = 3
      \<and> (\<forall>p<3. length (ds ! p) = 2
            \<and> mset (map (\<lambda>d. (diJet.lead d, diJet.subl d)) (ds ! p))
                = mset (map (\<lambda>(i, j). (js ! i, js ! j)) (slot_indices p))
            \<and> mset (concat (map constituents (ds ! p))) = mset js
            \<and> mset (concat (map (\<lambda>(i, j). [i, j]) (slot_indices p))) = mset [0..<4])
      \<and> distinct (map slot_partition [0..<3])
      \<and> (\<forall>A B. A \<union> B = {0..<4} \<and> A \<inter> B = {} \<and> card A = 2 \<and> card B = 2
            \<longrightarrow> {A, B} \<in> set (map slot_partition [0..<3]))"
proof -
  from assms obtain a b c d where js: "js = [a, b, c, d]" by (rule length_4_cases)
  have len: "4 \<le> length js" using assms by simp
  define s0 where "s0 = sort_st [make_diJet ops (js ! 0) (js ! 1), make_diJet ops (js ! 2) (js ! 3)]"
  define s1 where "s1 = sort_st [make_diJet ops (js ! 0) (js ! 2), make_diJet ops (js ! 1) (js ! 3)]"
  define s2 where "s2 = sort_st [make_diJet ops (js ! 0) (js ! 3), make_diJet ops (js ! 1) (js ! 2)]"
  have 1: "sorted_diJet ops js = Inr [s0, s1, s2]"
    unfolding s0_def s1_def s2_def by (rule sorted_diJet_ge4 [OF len])
  have 2: "length [s0, s1, s2] = 3" by simp
  have p0: "length ([s0, s1, s2] ! 0) = 2
            \<and> mset (map (\<lambda>d. (diJet.lead d, diJet.subl d)) ([s0, s1, s2] ! 0))
                = mset (map (\<lambda>(i, j). (js ! i, js ! j)) (slot_indices 0))
            \<and> mset (concat (map constituents ([s0, s1, s2] ! 0))) = mset js
            \<and> mset (concat (map (\<lambda>(i, j). [i, j]) (slot_indices 0))) = mset [0..<4]"
    unfolding nth_Cons_0 s0_def
    by (rule sorted_slot) (simp_all add: slot_indices_values js upt_4)
  have p1: "length ([s0, s1, s2] ! Suc 0) = 2
            \<and> mset (map (\<lambda>d. (diJet.lead d, diJet.subl d)) ([s0, s1, s2] ! Suc 0))
                = mset (map (\<lambda>(i, j). (js ! i, js ! j)) (slot_indices (Suc 0)))
            \<and> mset (concat (map constituents ([s0, s1, s2] ! Suc 0))) = mset js
            \<and> mset (concat (map (\<lambda>(i, j). [i, j]) (slot_indices (Suc 0)))) = mset [0..<4]"
    unfolding nth_Cons_Suc nth_Cons_0 s1_def
    by (rule sorted_slot) (simp_all add: slot_indices_values js upt_4)
  have s2_nth: "\<And>x y z. [x, y, z] ! 2 = z" by simp
  have p2: "length ([s0, s1, s2] ! 2) = 2
            \<and> mset (map (\<lambda>d. (diJet.lead d, diJet.subl d)) ([s0, s1, s2] ! 2))
                = mset (map (\<lambda>(i, j). (js ! i, js ! j)) (slot_indices 2))
            \<and> mset (concat (map constituents ([s0, s1, s2] ! 2))) = mset js
            \<and> mset (concat (map (\<lambda>(i, j). [i, j]) (slot_indices 2))) = mset [0..<4]"
    unfolding s2_nth s2_def
    by (rule sorted_slot) (simp_all add: slot_indices_values js upt_4)
  have 3: "\<forall>p<3. length ([s0, s1, s2] ! p) = 2
            \<and> mset (map (\<lambda>d. (diJet.lead d, diJet.subl d)) ([s0, s1, s2] ! p))
                = mset (map (\<lambda>(i, j). (js ! i, js ! j)) (slot_indices p))
            \<and> mset (concat (map constituents ([s0, s1, s2] ! p))) = mset js
            \<and> mset (concat (map (\<lambda>(i, j). [i, j]) (slot_indices p))) = mset [0..<4]"
  proof (intro allI impI)
    fix p :: nat
    assume "p < 3"
    then have "p = 0 \<or> p = Suc 0 \<or> p = 2" by (simp only: less_3_cases)
    then show "length ([s0, s1, s2] ! p) = 2
            \<and> mset (map (\<lambda>d. (diJet.lead d, diJet.subl d)) ([s0, s1, s2] ! p))
                = mset (map (\<lambda>(i, j). (js ! i, js ! j)) (slot_indices p))
            \<and> mset (concat (map constituents ([s0, s1, s2] ! p))) = mset js
            \<and> mset (concat (map (\<lambda>(i, j). [i, j]) (slot_indices p))) = mset [0..<4]"
      using p0 p1 p2 by (elim disjE) (simp_all only:)
  qed
  have 4: "\<forall>A B. A \<union> B = {0..<4} \<and> A \<inter> B = {} \<and> card A = 2 \<and> card B = 2
            \<longrightarrow> {A, B} \<in> set (map slot_partition [0..<3])"
    unfolding set_upt_4 using pair_partition_is_slot by (simp add: upt_3)
  from 1 2 3 4 slot_partitions_distinct show ?thesis by blast
qed

theorem pairing_slots_partition_jets_witness:
  "length (Jet event_ordered) = 4
   \<and> (\<exists>ds. sorted_diJet tuple_ops (Jet event_ordered) = Inr ds \<and> length ds = 3
         \<and> length (ds ! 0) = 2
         \<and> mset (concat (map constituents (ds ! 0))) = mset (Jet event_ordered)
         \<and> {{0, 1}, {2, 3}} \<in> set (map slot_partition [0..<3]))"
proof -
  have h: "length (Jet event_ordered) = 4" by (simp add: event_ordered_def)
  from pairing_slots_partition_jets [OF h, of tuple_ops]
  obtain ds where 1: "sorted_diJet tuple_ops (Jet event_ordered) = Inr ds \<and> length ds = 3"
    and 2: "\<forall>p<3. length (ds ! p) = 2
            \<and> mset (map (\<lambda>d. (diJet.lead d, diJet.subl d)) (ds ! p))
                = mset (map (\<lambda>(i, j). (Jet event_ordered ! i, Jet event_ordered ! j))
                         (slot_indices p))
            \<and> mset (concat (map constituents (ds ! p))) = mset (Jet event_ordered)
            \<and> mset (concat (map (\<lambda>(i, j). [i, j]) (slot_indices p))) = mset [0..<4]"
    and 3: "\<forall>A B. A \<union> B = {0..<4} \<and> A \<inter> B = {} \<and> card A = 2 \<and> card B = 2
            \<longrightarrow> {A, B} \<in> set (map slot_partition [0..<3])"
    by (elim exE conjE) (rule that, simp_all only: simp_thms)
  have "(0::nat) < 3" by simp
  with 2 have 4: "length (ds ! 0) = 2
     \<and> mset (concat (map constituents (ds ! 0))) = mset (Jet event_ordered)"
    by (simp only: simp_thms)
  have "{0, 1} \<union> {2, 3} = {0..<4::nat} \<and> {0, 1} \<inter> {2, 3} = ({}::nat set)
      \<and> card {0, 1::nat} = 2 \<and> card {2, 3::nat} = 2"
    by (auto simp: card_insert_if)
  with 3 have 5: "{{0, 1}, {2, 3}} \<in> set (map slot_partition [0..<3])"
    by (simp only: simp_thms)
  from h 1 4 5 show ?thesis by (intro conjI exI [of _ ds]) (simp_all only: simp_thms)
qed


section \<open>Which jets enter the dijets\<close>

text \<open>
  C2, as the code has it. For every event that survives the jet selection the dijets are
  built without an error from the jets at positions 0 to 3 of the event's jet list,
  whether flagged selected or not: within each slot the constituents of the two dijets are
  exactly these four jets. When the event has exactly 4 jets, all constituents are selected.
\<close>

theorem diJets_use_first_four_jets:
  assumes "4 \<le> nJet_selected ops ev"
  shows "\<exists>ds. event_diJet ops ev = Inr ds \<and> length ds = 3
     \<and> (\<forall>slot\<in>set ds. length slot = 2
          \<and> mset (concat (map constituents slot)) = mset (take 4 (Jet ev)))
     \<and> (length (Jet ev) = 4 \<longrightarrow>
          (\<forall>slot\<in>set ds. \<forall>d\<in>set slot. constituents_selected ops d))"
proof -
  have len: "4 \<le> length (Jet ev)" by (rule event_diJet_total [OF assms])
  from event_diJet_total(2) [OF assms] obtain ds where ds: "event_diJet ops ev = Inr ds" ..
  have 1: "length ds = 3" by (rule event_diJet_length [OF len ds])
  have i0: "0 < length (Jet ev)" and i1: "1 < length (Jet ev)"
    and i2: "2 < length (Jet ev)" and i3: "3 < length (Jet ev)"
    using len by arith+
  have 2: "\<forall>slot\<in>set ds. length slot = 2
          \<and> mset (concat (map constituents slot)) = mset (take 4 (Jet ev))"
  proof
    fix slot assume "slot \<in> set ds"
    from event_diJet_slot_constituents [OF len ds this] obtain i j k l c0 c1 where
      ijkl: "(i, j, k, l) \<in> {(0, 1, 2, 3), (0, 2, 1, 3), (0, 3, 1, 2)}"
      and s: "slot = [c0, c1]"
      and c: "(constituents c0 = [Jet ev ! i, Jet ev ! j] \<and> constituents c1 = [Jet ev ! k, Jet ev ! l])
     \<or> (constituents c0 = [Jet ev ! k, Jet ev ! l] \<and> constituents c1 = [Jet ev ! i, Jet ev ! j])"
      by metis
    from c have "mset (concat (map constituents slot))
        = {#Jet ev ! i, Jet ev ! j, Jet ev ! k, Jet ev ! l#}"
      unfolding s by auto
    also from ijkl have "\<dots> = mset (take 4 (Jet ev))"
      unfolding take_4 [OF len] by auto
    finally show "length slot = 2
          \<and> mset (concat (map constituents slot)) = mset (take 4 (Jet ev))"
      by (simp add: s)
  qed
  have 3: "length (Jet ev) = 4 \<longrightarrow>
          (\<forall>slot\<in>set ds. \<forall>d\<in>set slot. constituents_selected ops d)"
  proof (intro impI ballI)
    fix slot d assume l4: "length (Jet ev) = 4" and slot: "slot \<in> set ds" and d: "d \<in> set slot"
    from all_selected [OF assms l4] have sel: "\<forall>j\<in>set (Jet ev). Jet_selected ops j" .
    from d have "set (constituents d) \<subseteq> set (concat (map constituents slot))" by auto
    also from 2 slot have "\<dots> = set (take 4 (Jet ev))"
      by (metis set_mset_mset)
    also have "\<dots> \<subseteq> set (Jet ev)" by (rule set_take_subset)
    finally show "constituents_selected ops d"
      using sel by (auto simp: constituents_selected_def list_all_iff)
  qed
  from ds 1 2 3 show ?thesis by blast
qed

theorem diJets_use_first_four_jets_witness:
  "4 \<le> nJet_selected tuple_ops event_ordered \<and> length (Jet event_ordered) = 4
   \<and> (\<exists>ds. event_diJet tuple_ops event_ordered = Inr ds
       \<and> mset (concat (map constituents (ds ! 0))) = mset (take 4 (Jet event_ordered))
       \<and> constituents_selected tuple_ops (ds ! 0 ! 0))"
proof -
  have h: "4 \<le> nJet_selected tuple_ops event_ordered"
    by (simp add: nJet_selected_event_ordered)
  have l4: "length (Jet event_ordered) = 4" by (simp add: event_ordered_def)
  from diJets_use_first_four_jets [OF h] obtain ds
    where ds: "event_diJet tuple_ops event_ordered = Inr ds" and l: "length ds = 3"
      and a: "\<forall>slot\<in>set ds. length slot = 2
          \<and> mset (concat (map constituents slot)) = mset (take 4 (Jet event_ordered))"
      and b: "length (Jet event_ordered) = 4 \<longrightarrow>
          (\<forall>slot\<in>set ds. \<forall>d\<in>set slot. constituents_selected tuple_ops d)"
    by blast
  have m: "ds ! 0 \<in> set ds" using l by simp
  with a have 1: "length (ds ! 0) = 2"
    and 2: "mset (concat (map constituents (ds ! 0))) = mset (take 4 (Jet event_ordered))"
    by blast+
  from 1 have "ds ! 0 ! 0 \<in> set (ds ! 0)" by simp
  with b l4 m have 3: "constituents_selected tuple_ops (ds ! 0 ! 0)" by blast
  from h l4 ds 2 3 show ?thesis by blast
qed

text \<open>
  An event with 5 jets, of which the first is not selected and the other four are,
  survives the selection; the unselected jet is a constituent of a dijet in every slot.
\<close>

theorem unselected_jet_in_diJet:
  "4 \<le> nJet_selected tuple_ops event_five_jets
   \<and> \<not> Jet_selected tuple_ops (Jet event_five_jets ! 0)
   \<and> map_sum id (map (map constituents)) (event_diJet tuple_ops event_five_jets)
       = Inr [[[(80, 1, 50), (60, - 1, 50)], [(10, 0, 5), (100, 0, 50)]],
              [[(100, 0, 50), (60, - 1, 50)], [(10, 0, 5), (80, 1, 50)]],
              [[(100, 0, 50), (80, 1, 50)], [(10, 0, 5), (60, - 1, 50)]]]
   \<and> map_sum id (map (map (constituents_selected tuple_ops)))
        (event_diJet tuple_ops event_five_jets)
       = Inr [[True, False], [True, False], [True, False]]"
proof (intro conjI)
  show "4 \<le> nJet_selected tuple_ops event_five_jets"
    by (simp add: nJet_selected_event_five_jets)
  show "\<not> Jet_selected tuple_ops (Jet event_five_jets ! 0)"
    by (simp add: Jet_selected_def tuple_ops_def event_five_jets_def)
  show "map_sum id (map (map constituents)) (event_diJet tuple_ops event_five_jets)
       = Inr [[[(80, 1, 50), (60, - 1, 50)], [(10, 0, 5), (100, 0, 50)]],
              [[(100, 0, 50), (60, - 1, 50)], [(10, 0, 5), (80, 1, 50)]],
              [[(100, 0, 50), (80, 1, 50)], [(10, 0, 5), (60, - 1, 50)]]]"
    by (simp add: eval_defs event_five_jets_def constituents_def)
  show "map_sum id (map (map (constituents_selected tuple_ops)))
        (event_diJet tuple_ops event_five_jets)
       = Inr [[True, False], [True, False], [True, False]]"
    by (simp add: eval_defs event_five_jets_def constituents_def constituents_selected_def
        Jet_selected_def)
qed

section \<open>Order of the dijets within a pairing\<close>



section \<open>Order of the jets within a dijet\<close>

text \<open>
  C9, as the code has it. \<open>lead\<close> and \<open>subl\<close> of a dijet are the jets taken through
  \<open>pairing[0]\<close> and \<open>pairing[1]\<close>; in every pair the position of \<open>lead\<close> is the smaller
  one. So for a surviving event whose first four jets are in non-increasing order of \<open>pt\<close>,
  \<open>lead.pt \<ge> subl.pt\<close> in every dijet.
\<close>

theorem constituents_pt_ordered:
  assumes "4 \<le> nJet_selected ops ev"
    and "sorted_wrt (\<lambda>a b. pt ops b \<le> pt ops a) (take 4 (Jet ev))"
  shows "\<exists>ds. event_diJet ops ev = Inr ds \<and> length ds = 3
     \<and> (\<forall>slot\<in>set ds. length slot = 2 \<and> (\<forall>d\<in>set slot. pt_ordered ops d))"
proof -
  have len: "4 \<le> length (Jet ev)" by (rule event_diJet_total [OF assms(1)])
  from event_diJet_total(2) [OF assms(1)] obtain ds where ds: "event_diJet ops ev = Inr ds" ..
  have 1: "length ds = 3" by (rule event_diJet_length [OF len ds])
  have ord: "pt ops (Jet ev ! j) \<le> pt ops (Jet ev ! i)" if "i < j" "j < 4" for i j
  proof -
    have "j < length (take 4 (Jet ev))" using that len by simp
    from sorted_wrt_nth_less [OF assms(2) that(1) this]
    show ?thesis using that by simp
  qed
  have 2: "\<forall>slot\<in>set ds. length slot = 2 \<and> (\<forall>d\<in>set slot. pt_ordered ops d)"
  proof
    fix slot assume "slot \<in> set ds"
    from event_diJet_slot_constituents [OF len ds this] obtain i j k l c0 c1 where
      ijkl: "(i, j, k, l) \<in> {(0, 1, 2, 3), (0, 2, 1, 3), (0, 3, 1, 2)}"
      and s: "slot = [c0, c1]"
      and c: "(constituents c0 = [Jet ev ! i, Jet ev ! j] \<and> constituents c1 = [Jet ev ! k, Jet ev ! l])
     \<or> (constituents c0 = [Jet ev ! k, Jet ev ! l] \<and> constituents c1 = [Jet ev ! i, Jet ev ! j])"
      by metis
    from ijkl have "i < j" "j < 4" "k < l" "l < 4" by auto
    then have "pt ops (Jet ev ! j) \<le> pt ops (Jet ev ! i)" "pt ops (Jet ev ! l) \<le> pt ops (Jet ev ! k)"
      by (simp_all add: ord)
    with c have "pt_ordered ops c0 \<and> pt_ordered ops c1"
      by (auto simp: pt_ordered_def constituents_def)
    then show "length slot = 2 \<and> (\<forall>d\<in>set slot. pt_ordered ops d)"
      by (simp add: s)
  qed
  from ds 1 2 show ?thesis by blast
qed

theorem constituents_pt_ordered_witness:
  "4 \<le> nJet_selected tuple_ops event_ordered
   \<and> sorted_wrt (\<lambda>a b. pt tuple_ops b \<le> pt tuple_ops a) (take 4 (Jet event_ordered))
   \<and> (\<exists>ds. event_diJet tuple_ops event_ordered = Inr ds
       \<and> pt_ordered tuple_ops (ds ! 0 ! 0) \<and> pt_ordered tuple_ops (ds ! 0 ! 1))"
proof -
  have h: "4 \<le> nJet_selected tuple_ops event_ordered"
    by (simp add: nJet_selected_event_ordered)
  have s: "sorted_wrt (\<lambda>a b. pt tuple_ops b \<le> pt tuple_ops a) (take 4 (Jet event_ordered))"
    by (simp add: event_ordered_def tuple_ops_def numeral_eq_Suc)
  from constituents_pt_ordered [OF h s] obtain ds
    where ds: "event_diJet tuple_ops event_ordered = Inr ds" and l: "length ds = 3"
      and a: "\<forall>slot\<in>set ds. length slot = 2 \<and> (\<forall>d\<in>set slot. pt_ordered tuple_ops d)"
    by blast
  have m: "ds ! 0 \<in> set ds" using l by simp
  with a have 1: "length (ds ! 0) = 2" by blast
  then have "ds ! 0 ! 0 \<in> set (ds ! 0)" "ds ! 0 ! 1 \<in> set (ds ! 0)" by simp_all
  with a m have "pt_ordered tuple_ops (ds ! 0 ! 0) \<and> pt_ordered tuple_ops (ds ! 0 ! 1)" by blast
  with h s ds show ?thesis by blast
qed

text \<open>
  For a surviving event whose jets are not ordered by \<open>pt\<close>, dijets have a \<open>lead\<close> of
  smaller \<open>pt\<close> than their \<open>subl\<close>.
\<close>

theorem constituents_not_pt_ordered:
  "4 \<le> nJet_selected tuple_ops event_unordered
   \<and> map_sum id (map (map (pt_ordered tuple_ops))) (event_diJet tuple_ops event_unordered)
       = Inr [[False, False], [True, False], [True, False]]"
proof (intro conjI)
  show "4 \<le> nJet_selected tuple_ops event_unordered"
    by (simp add: nJet_selected_event_unordered)
  show "map_sum id (map (map (pt_ordered tuple_ops))) (event_diJet tuple_ops event_unordered)
       = Inr [[False, False], [True, False], [True, False]]"
    by (simp add: eval_defs event_unordered_def pt_ordered_def)
qed

section \<open>Mass windows\<close>

text \<open>
  C6. For every quadjet candidate of a surviving event the mass flag of its \<open>lead\<close> dijet
  is true iff \<open>52 < mass < 180\<close>, that of its \<open>subl\<close> dijet iff \<open>50 < mass < 173\<close>, and
  the candidate's \<open>diJetMass\<close> is the conjunction of the two.
\<close>

theorem diJetMass_windows:
  assumes "4 \<le> nJet_selected ops ev"
  shows "\<exists>ds. event_diJet ops ev = Inr ds \<and> length ds = 3
     \<and> (\<forall>rs. \<forall>q\<in>set (event_quadJet ops ds rs).
          diJet_cut.diJetMass (quadJet.lead q)
            = (52 < mass ops (p4 (quadJet.lead q)) \<and> mass ops (p4 (quadJet.lead q)) < 180)
          \<and> diJet_cut.diJetMass (quadJet.subl q)
            = (50 < mass ops (p4 (quadJet.subl q)) \<and> mass ops (p4 (quadJet.subl q)) < 173)
          \<and> quadJet.diJetMass q
            = (diJet_cut.diJetMass (quadJet.lead q) \<and> diJet_cut.diJetMass (quadJet.subl q)))"
proof -
  have len: "4 \<le> length (Jet ev)" by (rule event_diJet_total [OF assms])
  from event_diJet_total(2) [OF assms] obtain ds where ds: "event_diJet ops ev = Inr ds" ..
  have 1: "length ds = 3" by (rule event_diJet_length [OF len ds])
  have 3: "\<forall>rs. \<forall>q\<in>set (event_quadJet ops ds rs).
          diJet_cut.diJetMass (quadJet.lead q)
            = (52 < mass ops (p4 (quadJet.lead q)) \<and> mass ops (p4 (quadJet.lead q)) < 180)
          \<and> diJet_cut.diJetMass (quadJet.subl q)
            = (50 < mass ops (p4 (quadJet.subl q)) \<and> mass ops (p4 (quadJet.subl q)) < 173)
          \<and> quadJet.diJetMass q
            = (diJet_cut.diJetMass (quadJet.lead q) \<and> diJet_cut.diJetMass (quadJet.subl q))"
  proof (intro allI ballI)
    fix rs q assume "q \<in> set (event_quadJet ops ds rs)"
    from event_quadJet_candidate [OF len ds this] obtain x y r where
      "quadJet.truncate q =
         make_quadJet ops [classify ops (mass ops (v4j ops ev)) 0 x,
                           classify ops (mass ops (v4j ops ev)) (Suc 0) y] r"
      by metis
    then have "diJet_cut.diJetMass (quadJet.lead (quadJet.truncate q))
            = (52 < mass ops (p4 (quadJet.lead (quadJet.truncate q)))
               \<and> mass ops (p4 (quadJet.lead (quadJet.truncate q))) < 180)
          \<and> diJet_cut.diJetMass (quadJet.subl (quadJet.truncate q))
            = (50 < mass ops (p4 (quadJet.subl (quadJet.truncate q)))
               \<and> mass ops (p4 (quadJet.subl (quadJet.truncate q))) < 173)
          \<and> quadJet.diJetMass (quadJet.truncate q)
            = (diJet_cut.diJetMass (quadJet.lead (quadJet.truncate q))
               \<and> diJet_cut.diJetMass (quadJet.subl (quadJet.truncate q)))"
      by (simp add: make_quadJet_pair classify_sel diJetMass_cut_def
          minDiJetMass_def maxDiJetMass_def)
    then show "diJet_cut.diJetMass (quadJet.lead q)
            = (52 < mass ops (p4 (quadJet.lead q)) \<and> mass ops (p4 (quadJet.lead q)) < 180)
          \<and> diJet_cut.diJetMass (quadJet.subl q)
            = (50 < mass ops (p4 (quadJet.subl q)) \<and> mass ops (p4 (quadJet.subl q)) < 173)
          \<and> quadJet.diJetMass q
            = (diJet_cut.diJetMass (quadJet.lead q) \<and> diJet_cut.diJetMass (quadJet.subl q))"
      by (simp only: sel_truncate)
  qed
  from ds 1 3 show ?thesis by blast
qed

theorem diJetMass_windows_witness:
  "4 \<le> nJet_selected tuple_ops event_ordered
   \<and> (\<exists>ds. event_diJet tuple_ops event_ordered = Inr ds
       \<and> diJet_cut.diJetMass (quadJet.lead (event_quadJet tuple_ops ds [0.3, 0.5, 0.7] ! 0))
         = (52 < mass tuple_ops (p4 (quadJet.lead (event_quadJet tuple_ops ds [0.3, 0.5, 0.7] ! 0)))
            \<and> mass tuple_ops (p4 (quadJet.lead (event_quadJet tuple_ops ds [0.3, 0.5, 0.7] ! 0))) < 180)
       \<and> diJet_cut.diJetMass (quadJet.subl (event_quadJet tuple_ops ds [0.3, 0.5, 0.7] ! 0))
         = (50 < mass tuple_ops (p4 (quadJet.subl (event_quadJet tuple_ops ds [0.3, 0.5, 0.7] ! 0)))
            \<and> mass tuple_ops (p4 (quadJet.subl (event_quadJet tuple_ops ds [0.3, 0.5, 0.7] ! 0))) < 173)
       \<and> quadJet.diJetMass (event_quadJet tuple_ops ds [0.3, 0.5, 0.7] ! 0)
         = (diJet_cut.diJetMass (quadJet.lead (event_quadJet tuple_ops ds [0.3, 0.5, 0.7] ! 0))
            \<and> diJet_cut.diJetMass (quadJet.subl (event_quadJet tuple_ops ds [0.3, 0.5, 0.7] ! 0))))"
proof -
  have h: "4 \<le> nJet_selected tuple_ops event_ordered"
    by (simp add: nJet_selected_event_ordered)
  from diJetMass_windows [OF h] obtain ds
    where ds: "event_diJet tuple_ops event_ordered = Inr ds" and l: "length ds = 3"
      and b: "\<forall>rs. \<forall>q\<in>set (event_quadJet tuple_ops ds rs).
          diJet_cut.diJetMass (quadJet.lead q)
            = (52 < mass tuple_ops (p4 (quadJet.lead q)) \<and> mass tuple_ops (p4 (quadJet.lead q)) < 180)
          \<and> diJet_cut.diJetMass (quadJet.subl q)
            = (50 < mass tuple_ops (p4 (quadJet.subl q)) \<and> mass tuple_ops (p4 (quadJet.subl q)) < 173)
          \<and> quadJet.diJetMass q
            = (diJet_cut.diJetMass (quadJet.lead q) \<and> diJet_cut.diJetMass (quadJet.subl q))"
    by blast
  have "event_quadJet tuple_ops ds [0.3, 0.5, 0.7] ! 0
      \<in> set (event_quadJet tuple_ops ds [0.3, 0.5, 0.7])"
    by (simp add: length_event_quadJet l)
  with b ds h show ?thesis by blast
qed

section \<open>Sliding window on \<open>dr\<close>\<close>

text \<open>
  C7. With \<open>m4j\<close> the mass of the sum of the event's jets and \<open>m4j \<noteq> 0\<close>, the flag \<open>drc\<close>
  of the dijet at position 0 of a slot is true iff
  \<open>360 / m4j - 0.5 < dr < max (650 / m4j + 0.5) 1.5\<close>, and at position 1 iff
  \<open>235 / m4j + 0.0 < dr < max (650 / m4j + 0.7) 1.5\<close>. For \<open>m4j = 0\<close> the window is empty.
  For \<open>m4j = 400\<close> the bounds at position 0 are \<open>0.4\<close> and \<open>2.125\<close>: \<open>dr = 1.0\<close> passes
  and \<open>dr = 2.5\<close> fails.
\<close>

theorem drc_sliding_window:
  assumes "4 \<le> nJet_selected ops ev"
  shows "\<exists>ds. event_diJet ops ev = Inr ds \<and> length ds = 3
     \<and> (\<forall>slot\<in>set ds. length slot = 2
          \<and> (mass ops (v4j ops ev) \<noteq> 0 \<longrightarrow>
               drc (slot ! 0)
                 = (360 / mass ops (v4j ops ev) - 0.5 < diJet.dr (slot ! 0)
                    \<and> diJet.dr (slot ! 0) < max (650 / mass ops (v4j ops ev) + 0.5) 1.5)
             \<and> drc (slot ! 1)
                 = (235 / mass ops (v4j ops ev) + 0.0 < diJet.dr (slot ! 1)
                    \<and> diJet.dr (slot ! 1) < max (650 / mass ops (v4j ops ev) + 0.7) 1.5))
          \<and> (mass ops (v4j ops ev) = 0 \<longrightarrow> \<not> drc (slot ! 0) \<and> \<not> drc (slot ! 1)))
     \<and> (\<forall>r. drc_cut 0 400 r = (0.4 < r \<and> r < 2.125))
     \<and> drc_cut 0 400 1.0 \<and> \<not> drc_cut 0 400 2.5"
proof -
  have len: "4 \<le> length (Jet ev)" by (rule event_diJet_total [OF assms])
  from event_diJet_total(2) [OF assms] obtain ds where ds: "event_diJet ops ev = Inr ds" ..
  have 1: "length ds = 3" by (rule event_diJet_length [OF len ds])
  have 2: "\<forall>slot\<in>set ds. length slot = 2
          \<and> (mass ops (v4j ops ev) \<noteq> 0 \<longrightarrow>
               drc (slot ! 0)
                 = (360 / mass ops (v4j ops ev) - 0.5 < diJet.dr (slot ! 0)
                    \<and> diJet.dr (slot ! 0) < max (650 / mass ops (v4j ops ev) + 0.5) 1.5)
             \<and> drc (slot ! 1)
                 = (235 / mass ops (v4j ops ev) + 0.0 < diJet.dr (slot ! 1)
                    \<and> diJet.dr (slot ! 1) < max (650 / mass ops (v4j ops ev) + 0.7) 1.5))
          \<and> (mass ops (v4j ops ev) = 0 \<longrightarrow> \<not> drc (slot ! 0) \<and> \<not> drc (slot ! 1))"
  proof
    fix slot assume "slot \<in> set ds"
    from event_diJet_slot [OF len ds this] obtain x y where
      slot: "slot = [classify ops (mass ops (v4j ops ev)) 0 x,
               classify ops (mass ops (v4j ops ev)) (Suc 0) y]"
      by metis
    show "length slot = 2
          \<and> (mass ops (v4j ops ev) \<noteq> 0 \<longrightarrow>
               drc (slot ! 0)
                 = (360 / mass ops (v4j ops ev) - 0.5 < diJet.dr (slot ! 0)
                    \<and> diJet.dr (slot ! 0) < max (650 / mass ops (v4j ops ev) + 0.5) 1.5)
             \<and> drc (slot ! 1)
                 = (235 / mass ops (v4j ops ev) + 0.0 < diJet.dr (slot ! 1)
                    \<and> diJet.dr (slot ! 1) < max (650 / mass ops (v4j ops ev) + 0.7) 1.5))
          \<and> (mass ops (v4j ops ev) = 0 \<longrightarrow> \<not> drc (slot ! 0) \<and> \<not> drc (slot ! 1))"
    proof (cases "mass ops (v4j ops ev) = 0")
      case True
      then show ?thesis by (simp add: slot classify_sel drc_cut_zero)
    next
      case False
      then show ?thesis
        by (simp add: slot classify_sel drc_cut_lead [OF False] drc_cut_subl [OF False])
    qed
  qed
  have 3: "\<forall>r. drc_cut 0 400 r = (0.4 < r \<and> r < 2.125)" by (simp add: drc_cut_400)
  have 4: "drc_cut 0 400 1.0" "\<not> drc_cut 0 400 2.5" by (simp_all add: drc_cut_400)
  from ds 1 2 3 4 show ?thesis by blast
qed

theorem drc_sliding_window_witness:
  "4 \<le> nJet_selected tuple_ops event_ordered
   \<and> mass tuple_ops (v4j tuple_ops event_ordered) = 200
   \<and> (\<exists>ds. event_diJet tuple_ops event_ordered = Inr ds
       \<and> drc (ds ! 2 ! 0) = (360 / 200 - 0.5 < diJet.dr (ds ! 2 ! 0)
                             \<and> diJet.dr (ds ! 2 ! 0) < max (650 / 200 + 0.5) 1.5)
       \<and> drc (ds ! 2 ! 1) = (235 / 200 + 0.0 < diJet.dr (ds ! 2 ! 1)
                             \<and> diJet.dr (ds ! 2 ! 1) < max (650 / 200 + 0.7) 1.5))
   \<and> drc_cut 0 400 1.0 \<and> \<not> drc_cut 0 400 2.5"
proof -
  have h: "4 \<le> nJet_selected tuple_ops event_ordered"
    by (simp add: nJet_selected_event_ordered)
  have m: "mass tuple_ops (v4j tuple_ops event_ordered) = 200"
    by (simp add: tuple_ops_def v4j_def event_ordered_def)
  from drc_sliding_window [OF h] obtain ds
    where ds: "event_diJet tuple_ops event_ordered = Inr ds" and l: "length ds = 3"
      and a: "\<forall>slot\<in>set ds. length slot = 2
          \<and> (mass tuple_ops (v4j tuple_ops event_ordered) \<noteq> 0 \<longrightarrow>
               drc (slot ! 0)
                 = (360 / mass tuple_ops (v4j tuple_ops event_ordered) - 0.5 < diJet.dr (slot ! 0)
                    \<and> diJet.dr (slot ! 0)
                        < max (650 / mass tuple_ops (v4j tuple_ops event_ordered) + 0.5) 1.5)
             \<and> drc (slot ! 1)
                 = (235 / mass tuple_ops (v4j tuple_ops event_ordered) + 0.0 < diJet.dr (slot ! 1)
                    \<and> diJet.dr (slot ! 1)
                        < max (650 / mass tuple_ops (v4j tuple_ops event_ordered) + 0.7) 1.5))
          \<and> (mass tuple_ops (v4j tuple_ops event_ordered) = 0
               \<longrightarrow> \<not> drc (slot ! 0) \<and> \<not> drc (slot ! 1))"
      and c: "drc_cut 0 400 1.0" "\<not> drc_cut 0 400 2.5"
    by blast
  have "ds ! 2 \<in> set ds" using l by simp
  with a have "mass tuple_ops (v4j tuple_ops event_ordered) \<noteq> 0 \<longrightarrow>
               drc (ds ! 2 ! 0)
                 = (360 / mass tuple_ops (v4j tuple_ops event_ordered) - 0.5 < diJet.dr (ds ! 2 ! 0)
                    \<and> diJet.dr (ds ! 2 ! 0)
                        < max (650 / mass tuple_ops (v4j tuple_ops event_ordered) + 0.5) 1.5)
             \<and> drc (ds ! 2 ! 1)
                 = (235 / mass tuple_ops (v4j tuple_ops event_ordered) + 0.0 < diJet.dr (ds ! 2 ! 1)
                    \<and> diJet.dr (ds ! 2 ! 1)
                        < max (650 / mass tuple_ops (v4j tuple_ops event_ordered) + 0.7) 1.5)"
    by blast
  then have 1: "drc (ds ! 2 ! 0) = (360 / 200 - 0.5 < diJet.dr (ds ! 2 ! 0)
                             \<and> diJet.dr (ds ! 2 ! 0) < max (650 / 200 + 0.5) 1.5)
       \<and> drc (ds ! 2 ! 1) = (235 / 200 + 0.0 < diJet.dr (ds ! 2 ! 1)
                             \<and> diJet.dr (ds ! 2 ! 1) < max (650 / 200 + 0.7) 1.5)"
    unfolding m by simp
  from h m ds 1 c show ?thesis by blast
qed

section \<open>Regions\<close>

text \<open>
  C4. For every quadjet candidate of a surviving event, \<open>SR\<close> holds iff \<open>xHH\<close> is finite
  and below \<open>1.9\<close>, \<open>SB\<close> is \<open>diJetMass \<and> \<not> SR\<close>; so \<open>SB\<close> implies \<open>diJetMass\<close> and
  \<open>\<not> SR\<close>, and \<open>SB\<close> and \<open>SR\<close> never hold together.
\<close>

theorem SB_implies_diJetMass_not_SR:
  assumes "4 \<le> nJet_selected ops ev"
  shows "\<exists>ds. event_diJet ops ev = Inr ds \<and> length ds = 3
     \<and> (\<forall>rs. \<forall>q\<in>set (event_quadJet ops ds rs).
          quadJet.SR q = (\<exists>x. xHH q = Some x \<and> x < 1.9)
        \<and> quadJet.SB q = (quadJet.diJetMass q \<and> \<not> quadJet.SR q)
        \<and> (quadJet.SB q \<longrightarrow> quadJet.diJetMass q \<and> \<not> quadJet.SR q)
        \<and> \<not> (quadJet.SB q \<and> quadJet.SR q))"
proof -
  have len: "4 \<le> length (Jet ev)" by (rule event_diJet_total [OF assms])
  from event_diJet_total(2) [OF assms] obtain ds where ds: "event_diJet ops ev = Inr ds" ..
  have 1: "length ds = 3" by (rule event_diJet_length [OF len ds])
  have 2: "\<forall>rs. \<forall>q\<in>set (event_quadJet ops ds rs).
          quadJet.SR q = (\<exists>x. xHH q = Some x \<and> x < 1.9)
        \<and> quadJet.SB q = (quadJet.diJetMass q \<and> \<not> quadJet.SR q)
        \<and> (quadJet.SB q \<longrightarrow> quadJet.diJetMass q \<and> \<not> quadJet.SR q)
        \<and> \<not> (quadJet.SB q \<and> quadJet.SR q)"
  proof (intro allI ballI)
    fix rs q assume "q \<in> set (event_quadJet ops ds rs)"
    from event_quadJet_candidate [OF len ds this] obtain l s r where
      "quadJet.truncate q = make_quadJet ops [l, s] r"
      by metis
    then have "quadJet.SR (quadJet.truncate q) = SR_cut (xHH (quadJet.truncate q))"
      "quadJet.SB (quadJet.truncate q)
         = (quadJet.diJetMass (quadJet.truncate q) \<and> \<not> quadJet.SR (quadJet.truncate q))"
      by (simp_all add: make_quadJet_pair)
    then have "quadJet.SR q = SR_cut (xHH q)"
      "quadJet.SB q = (quadJet.diJetMass q \<and> \<not> quadJet.SR q)"
      by (simp_all only: sel_truncate)
    then show "quadJet.SR q = (\<exists>x. xHH q = Some x \<and> x < 1.9)
        \<and> quadJet.SB q = (quadJet.diJetMass q \<and> \<not> quadJet.SR q)
        \<and> (quadJet.SB q \<longrightarrow> quadJet.diJetMass q \<and> \<not> quadJet.SR q)
        \<and> \<not> (quadJet.SB q \<and> quadJet.SR q)"
      unfolding SR_cut_iff by blast
  qed
  from ds 1 2 show ?thesis by blast
qed

theorem SB_implies_diJetMass_not_SR_witness:
  "4 \<le> nJet_selected tuple_ops event_ordered
   \<and> (\<exists>ds. event_diJet tuple_ops event_ordered = Inr ds
       \<and> quadJet.SB (event_quadJet tuple_ops ds [0.3, 0.5, 0.7] ! 2)
       \<and> quadJet.diJetMass (event_quadJet tuple_ops ds [0.3, 0.5, 0.7] ! 2)
       \<and> \<not> quadJet.SR (event_quadJet tuple_ops ds [0.3, 0.5, 0.7] ! 2))"
proof -
  have h: "4 \<le> nJet_selected tuple_ops event_ordered"
    by (simp add: nJet_selected_event_ordered)
  from SB_implies_diJetMass_not_SR [OF h] obtain ds
    where ds: "event_diJet tuple_ops event_ordered = Inr ds" and l: "length ds = 3"
      and b: "\<forall>rs. \<forall>q\<in>set (event_quadJet tuple_ops ds rs).
          quadJet.SR q = (\<exists>x. xHH q = Some x \<and> x < 1.9)
        \<and> quadJet.SB q = (quadJet.diJetMass q \<and> \<not> quadJet.SR q)
        \<and> (quadJet.SB q \<longrightarrow> quadJet.diJetMass q \<and> \<not> quadJet.SR q)
        \<and> \<not> (quadJet.SB q \<and> quadJet.SR q)"
    by blast
  let ?q = "event_quadJet tuple_ops ds [0.3, 0.5, 0.7] ! 2"
  have "?q \<in> set (event_quadJet tuple_ops ds [0.3, 0.5, 0.7])"
    by (simp add: length_event_quadJet l)
  with b have imp: "quadJet.SB ?q \<longrightarrow> quadJet.diJetMass ?q \<and> \<not> quadJet.SR ?q" by blast
  have "quadJet.SB ?q = quadJet.SB (make_quadJet tuple_ops (ds ! 2) ([0.3, 0.5, 0.7] ! 2))"
    by (rule event_quadJet_nth_fields) (simp_all add: l)
  also have "\<dots>"
    unfolding Inr_event_ordered [OF ds]
    by (simp add: make_quadJet_pair not_SR_example)
  finally have sb: "quadJet.SB ?q" .
  with imp have "quadJet.diJetMass ?q \<and> \<not> quadJet.SR ?q" by blast
  with h ds sb show ?thesis by blast
qed

section \<open>Rank\<close>



section \<open>Selection of the winner\<close>




section \<open>Determinism of \<open>process\<close>\<close>

text \<open>
  C10. \<open>process\<close> reseeds the generator with 0 before anything else, so its result and
  the state it leaves behind do not depend on the state of the generator at the call:
  two calls on the same batch, from any two states, give the same result, and so does
  a call that follows another one.
\<close>

theorem process_reseeds:
  "process self ops R md event s1 = process self ops R md event s2
   \<and> fst (process self ops R md event (snd (process self ops R md event s1)))
       = fst (process self ops R md event s1)"
  by (simp add: process_def)

theorem process_reseeds_witness:
  "fst (process \<lparr>debug = False\<rparr> tuple_ops counter_random chunk_metadata
          [event_ordered, event_three_selected] 7) =
   Inr \<lparr>hists_m4j = [(''toy'', ''all'', ''inclusive'', 200, 1),
                     (''toy'', ''all'', ''inclusive'', 200, 1),
                     (''toy'', ''preselection'', ''inclusive'', 200, 1),
                     (''toy'', ''preselection'', ''diJetMass'', 200, 1),
                     (''toy'', ''preselection'', ''SB'', 200, 1)],
         cutflow = [(''toy'', ''all'', ''inclusive'', 1),
                    (''toy'', ''all'', ''inclusive'', 1),
                    (''toy'', ''preselection'', ''inclusive'', 1),
                    (''toy'', ''preselection'', ''diJetMass'', 1),
                    (''toy'', ''preselection'', ''SB'', 1)],
         sumw = 2, nEvent = 2\<rparr>
   \<and> process \<lparr>debug = False\<rparr> tuple_ops counter_random chunk_metadata
         [event_ordered, event_three_selected] 7
     = process \<lparr>debug = False\<rparr> tuple_ops counter_random chunk_metadata
         [event_ordered, event_three_selected] 0"
proof -
  have "process \<lparr>debug = False\<rparr> tuple_ops counter_random chunk_metadata
         [event_ordered, event_three_selected] 7
     = process \<lparr>debug = False\<rparr> tuple_ops counter_random chunk_metadata
         [event_ordered, event_three_selected] 0"
    using process_reseeds [of "\<lparr>debug = False\<rparr>" tuple_ops counter_random chunk_metadata
        "[event_ordered, event_three_selected]" 7 0]
    by (rule conjunct1)
  then show ?thesis by (simp add: process_example)
qed

end
